theory Spec2Isabelle
  imports Main
begin

section \<open>Scheduled-booking lifecycle jobs (sendReminder.js and the cron jobs)\<close>

text \<open>
  A shallow embedding of \<^verbatim>\<open>src/Utils/sendReminder.js\<close>: the reminder composer
  \<^verbatim>\<open>sendScheduledReminder\<close>, the customer notification
  \<^verbatim>\<open>notifyCustomerOfRebroadcast\<close> and the five cron jobs.

  Times are milliseconds since the epoch (\<^verbatim>\<open>Date.getTime()\<close>), document ids are
  natural numbers, the collection is the list of its documents, and everything a job does
  to the outside world (collaborator calls, socket emits, console output) is appended to
  a trace.
\<close>

subsection \<open>Data model\<close>

record remindersSent =
  h24 :: bool
  h1 :: bool
  min15 :: bool

record addressSnapshot =
  latitude :: "int option"
  longitude :: "int option"

text \<open>The fields of a ServiceBooking document that the jobs read or write.\<close>

record booking =
  bid :: nat                                \<comment> \<open>\<^verbatim>\<open>_id\<close>\<close>
  status :: string
  scheduledAt :: "int option"
  technicianId :: "nat option"
  customerId :: "nat option"
  reminders :: remindersSent               \<comment> \<open>\<^verbatim>\<open>remindersSent\<close>\<close>
  noShowAt :: "int option"
  assignedAt :: "int option"
  address :: "addressSnapshot option"      \<comment> \<open>\<^verbatim>\<open>addressSnapshot\<close>\<close>
  coordinates :: "int list option"         \<comment> \<open>\<^verbatim>\<open>location.coordinates\<close>\<close>

text \<open>A populated \<^verbatim>\<open>userId\<close> of a technician profile, and a customer's User record.\<close>

record user =
  fname :: "string option"
  mobileNumber :: "string option"

datatype event =
    MatchAndBroadcast nat
      \<comment> \<open>\<^verbatim>\<open>matchAndBroadcastBooking(booking._id, io)\<close> is called\<close>
  | SendScheduledReminder nat string
      \<comment> \<open>\<^verbatim>\<open>sendScheduledReminder(booking, type, io)\<close> is called\<close>
  | NotifyCustomerOfRebroadcast nat
      \<comment> \<open>\<^verbatim>\<open>notifyCustomerOfRebroadcast(booking, io)\<close> is called\<close>
  | PushNotification nat "string option" "string option" string nat
      \<comment> \<open>technician, title, body, \<^verbatim>\<open>data.type\<close>, \<^verbatim>\<open>data.bookingId\<close>\<close>
  | SocketNotification nat string nat "int option" "string option"
      \<comment> \<open>technician, type, bookingId, scheduledAt, message (event \<^verbatim>\<open>booking:reminder\<close>)\<close>
  | Sms string "string option"
      \<comment> \<open>\<^verbatim>\<open>sendSms(phone, text)\<close> is called\<close>
  | EmitRebroadcast nat nat
      \<comment> \<open>customer, bookingId (event \<^verbatim>\<open>booking:rebroadcast\<close>)\<close>
  | EmitNavigate nat nat int int
      \<comment> \<open>technician, bookingId, latitude, longitude (event \<^verbatim>\<open>booking:navigate\<close>)\<close>
  | ConsoleLog string nat
      \<comment> \<open>\<^verbatim>\<open>console.log\<close>: which message, and the booking id or count it prints\<close>
  | ConsoleWarn string string
      \<comment> \<open>\<^verbatim>\<open>console.warn\<close>: which message, and the error's message\<close>
  | ConsoleError string "nat option" string
      \<comment> \<open>\<^verbatim>\<open>console.error\<close>: which message, the booking id if printed, the error's message\<close>

text \<open>
  The collaborators that are imported by the source and whose code is not part of it are
  parameters. The store's calls, the lookups and the matching service reject with Error
  objects: a failure of theirs is \<open>Inl\<close> (or \<open>Some\<close>) of the error's message.
  What the push and SMS transports reject with is not constrained, so theirs is a
  \<open>thrown\<close> value. The collaborators are taken not to write the booking fields above:
  the matching service finds technicians and broadcasts the offer, the notification
  channels deliver messages, and the lookups read. Socket emits are fire-and-forget and
  do not throw.
\<close>

text \<open>
  A thrown value: an Error object with its message, or \<^verbatim>\<open>null\<close> / \<^verbatim>\<open>undefined\<close>.
  Reading \<^verbatim>\<open>err.message\<close> of the latter throws a TypeError.
\<close>

datatype thrown = Error string | Nullish

definition typeErrorMessage :: string where
  "typeErrorMessage = ''Cannot read properties of undefined (reading 'message')''"

record env =
  findRejects :: "string option"
    \<comment> \<open>\<^verbatim>\<open>ServiceBooking.find\<close> fails\<close>
  updateRejects :: "nat \<Rightarrow> string option"
    \<comment> \<open>\<^verbatim>\<open>updateOne\<close> / \<^verbatim>\<open>findOneAndUpdate\<close> on this \<^verbatim>\<open>_id\<close> fails\<close>
  matchAndBroadcastBooking :: "nat \<Rightarrow> string + nat option"
    \<comment> \<open>the result's \<^verbatim>\<open>count\<close>, if it has one\<close>
  technicianProfileFindById :: "nat \<Rightarrow> string + user option option"
    \<comment> \<open>the profile, if any, with its populated \<^verbatim>\<open>userId\<close>, if any\<close>
  userFindById :: "nat \<Rightarrow> string + user option"
  sendPushNotification :: "nat \<Rightarrow> thrown option"
  sendSms :: "string \<Rightarrow> thrown option"
  toLocaleString :: "int \<Rightarrow> string"
    \<comment> \<open>\<^verbatim>\<open>new Date(t).toLocaleString("en-IN", ...)\<close>\<close>

text \<open>The collection and the trace of effects so far.\<close>

type_synonym world = "booking list \<times> event list"

subsection \<open>The booking store\<close>

text \<open>
  A date comparison of a query: a document whose field is null or missing does not match
  \<^verbatim>\<open>$lte\<close> or \<^verbatim>\<open>$gte\<close> against a date.
\<close>

definition date_lte :: "int option \<Rightarrow> int \<Rightarrow> bool" where
  "date_lte field bound = (case field of None \<Rightarrow> False | Some t \<Rightarrow> t \<le> bound)"

definition date_gte :: "int option \<Rightarrow> int \<Rightarrow> bool" where
  "date_gte field bound = (case field of None \<Rightarrow> False | Some t \<Rightarrow> bound \<le> t)"

text \<open>
  \<^verbatim>\<open>ServiceBooking.find(query)\<close>. The \<^verbatim>\<open>.select(...)\<close> projections are not
  modelled: the jobs read only projected fields from the documents they get.
\<close>

definition find_docs :: "env \<Rightarrow> (booking \<Rightarrow> bool) \<Rightarrow> booking list \<Rightarrow> string + booking list" where
  "find_docs e query docs =
     (case findRejects e of
        Some err \<Rightarrow> Inl err
      | None \<Rightarrow> Inr (filter query docs))"

fun updateFirst :: "('a \<Rightarrow> bool) \<Rightarrow> ('a \<Rightarrow> 'a) \<Rightarrow> 'a list \<Rightarrow> 'a list" where
  "updateFirst p f [] = []"
| "updateFirst p f (x # xs) = (if p x then f x # xs else x # updateFirst p f xs)"

text \<open>
  \<^verbatim>\<open>ServiceBooking.updateOne({_id: i, ...query}, {$set: ...})\<close>: the first document that
  matches is updated; the result is the new collection and \<^verbatim>\<open>matchedCount\<close>.
\<close>

definition updateOne ::
  "env \<Rightarrow> nat \<Rightarrow> (booking \<Rightarrow> bool) \<Rightarrow> (booking \<Rightarrow> booking) \<Rightarrow> booking list
     \<Rightarrow> string + booking list \<times> nat" where
  "updateOne e i query upd docs =
     (case updateRejects e i of
        Some err \<Rightarrow> Inl err
      | None \<Rightarrow>
          Inr (updateFirst (\<lambda>d. bid d = i \<and> query d) upd docs,
               (case find (\<lambda>d. bid d = i \<and> query d) docs of None \<Rightarrow> 0 | Some _ \<Rightarrow> 1)))"

text \<open>
  \<^verbatim>\<open>ServiceBooking.findOneAndUpdate({_id: i, ...query}, {$set: ...}, {new: true})\<close>: the
  result is the new collection and the updated document, or null when none matched.
\<close>

definition findOneAndUpdate ::
  "env \<Rightarrow> nat \<Rightarrow> (booking \<Rightarrow> bool) \<Rightarrow> (booking \<Rightarrow> booking) \<Rightarrow> booking list
     \<Rightarrow> string + booking list \<times> booking option" where
  "findOneAndUpdate e i query upd docs =
     (case updateRejects e i of
        Some err \<Rightarrow> Inl err
      | None \<Rightarrow>
          Inr (updateFirst (\<lambda>d. bid d = i \<and> query d) upd docs,
               map_option upd (find (\<lambda>d. bid d = i \<and> query d) docs)))"

text \<open>The document the store holds under an id.\<close>

definition findById :: "nat \<Rightarrow> booking list \<Rightarrow> booking option" where
  "findById i docs = find (\<lambda>d. bid d = i) docs"

text \<open>A \<^verbatim>\<open>for (const booking of bookings)\<close> loop over the query's result.\<close>

fun for_each :: "('a \<Rightarrow> world \<Rightarrow> world) \<Rightarrow> 'a list \<Rightarrow> world \<Rightarrow> world" where
  "for_each body [] w = w"
| "for_each body (b # bs) w = for_each body bs (body b w)"

subsection \<open>CRON 1: activateScheduledBookings\<close>

text \<open>
  The status flip:
  \<^verbatim>\<open>updateOne({_id: booking._id, status: "scheduled"}, {$set: {status: "requested"}})\<close>.
\<close>

definition activate_update :: "env \<Rightarrow> nat \<Rightarrow> booking list \<Rightarrow> string + booking list \<times> nat" where
  "activate_update e i docs =
     updateOne e i (\<lambda>d. status d = ''scheduled'') (\<lambda>d. d\<lparr>status := ''requested''\<rparr>) docs"

text \<open>The body of the loop, with its own try/catch.\<close>

definition activate_booking :: "env \<Rightarrow> bool \<Rightarrow> booking \<Rightarrow> world \<Rightarrow> world" where
  "activate_booking e io b w =
     (case activate_update e (bid b) (fst w) of
        Inl err \<Rightarrow>
          (fst w, snd w @ [ConsoleError ''[CRON:ACTIVATE] Error for booking'' (Some (bid b)) err])
      | Inr (docs, res) \<Rightarrow>
          (case matchAndBroadcastBooking e (bid b) of
             Inl err \<Rightarrow>
               (docs, snd w @ [MatchAndBroadcast (bid b),
                  ConsoleError ''[CRON:ACTIVATE] Error for booking'' (Some (bid b)) err])
           | Inr result \<Rightarrow>
               (docs, snd w @ [MatchAndBroadcast (bid b),
                  ConsoleLog ''[CRON:ACTIVATE] Booking activated'' (bid b)])))"

definition activate_query :: "int \<Rightarrow> booking \<Rightarrow> bool" where
  "activate_query now d =
     (let windowEnd = now + 15 * 60 * 1000
      in status d = ''scheduled'' \<and> date_lte (scheduledAt d) windowEnd)"

definition activateScheduledBookings :: "env \<Rightarrow> bool \<Rightarrow> int \<Rightarrow> world \<Rightarrow> world" where
  "activateScheduledBookings e io now w =
     (case find_docs e (activate_query now) (fst w) of
        Inl err \<Rightarrow> (fst w, snd w @ [ConsoleError ''[CRON:ACTIVATE] Fatal error'' None err])
      | Inr bookings \<Rightarrow>
          if length bookings = 0 then w
          else for_each (activate_booking e io) bookings
                 (fst w, snd w @ [ConsoleLog ''[CRON:ACTIVATE] Found'' (length bookings)]))"

subsection \<open>The reminder composer: sendScheduledReminder\<close>

record message =
  title :: "string option"
  body :: "string option"

record reminderResult =
  success :: bool
  reason :: "string option"
  error :: "string option"

text \<open>\<^verbatim>\<open>x || fallback\<close> on a string that may be undefined: the empty string is falsy.\<close>

definition truthy :: "string option \<Rightarrow> string option" where
  "truthy s = (case s of None \<Rightarrow> None | Some x \<Rightarrow> if x = [] then None else Some x)"

text \<open>
  The property names every object literal inherits from \<^verbatim>\<open>Object.prototype\<close>:
  \<^verbatim>\<open>messages[type]\<close> is a property lookup, which follows the prototype chain.
\<close>

definition objectPrototypeKeys :: "string list" where
  "objectPrototypeKeys =
     [''constructor'', ''__defineGetter__'', ''__defineSetter__'', ''hasOwnProperty'',
      ''__lookupGetter__'', ''__lookupSetter__'', ''isPrototypeOf'', ''propertyIsEnumerable'',
      ''toString'', ''valueOf'', ''__proto__'', ''toLocaleString'']"

text \<open>
  \<^verbatim>\<open>messages[type]\<close>: one of the three messages, an inherited member of
  \<^verbatim>\<open>Object.prototype\<close> (truthy, with no \<^verbatim>\<open>title\<close> and no \<^verbatim>\<open>body\<close>), or
  undefined. The emoji that starts each title is left out.
\<close>

definition messages :: "string \<Rightarrow> string \<Rightarrow> string \<Rightarrow> message option" where
  "messages techName scheduledDate type =
     (if type = ''h24'' then
        Some \<lparr>title = Some ''Reminder: Job Tomorrow'',
              body = Some (''Hi '' @ techName @ '', you have a scheduled job tomorrow at ''
                           @ scheduledDate @ ''. Please be prepared!'')\<rparr>
      else if type = ''h1'' then
        Some \<lparr>title = Some ''Job in 1 Hour'',
              body = Some (''Hi '' @ techName @ '', your job starts in 1 hour at ''
                           @ scheduledDate @ ''. Head out soon!'')\<rparr>
      else if type = ''min15'' then
        Some \<lparr>title = Some ''Job Starts in 15 Minutes!'',
              body = Some (''Hi '' @ techName
                           @ '', your job starts in 15 minutes. Navigate to customer location now.'')\<rparr>
      else if type \<in> set objectPrototypeKeys then Some \<lparr>title = None, body = None\<rparr>
      else None)"

text \<open>
  \<^verbatim>\<open>techProfile?.userId?.fname || "Technician"\<close>,
  \<^verbatim>\<open>techProfile?.userId?.mobileNumber || null\<close> and the formatted date, or
  \<^verbatim>\<open>"your scheduled time"\<close> when the booking has none.
\<close>

definition techNameOf :: "user option option \<Rightarrow> string" where
  "techNameOf techProfile =
     (case truthy (case (case techProfile of None \<Rightarrow> None | Some u \<Rightarrow> u) of
                     None \<Rightarrow> None | Some u \<Rightarrow> fname u) of
        None \<Rightarrow> ''Technician''
      | Some n \<Rightarrow> n)"

definition techPhoneOf :: "user option option \<Rightarrow> string option" where
  "techPhoneOf techProfile =
     truthy (case (case techProfile of None \<Rightarrow> None | Some u \<Rightarrow> u) of
               None \<Rightarrow> None | Some u \<Rightarrow> mobileNumber u)"

definition scheduledDateOf :: "env \<Rightarrow> booking \<Rightarrow> string" where
  "scheduledDateOf e b =
     (case scheduledAt b of None \<Rightarrow> ''your scheduled time'' | Some t \<Rightarrow> toLocaleString e t)"

text \<open>
  The body of the \<^verbatim>\<open>try\<close> block: \<open>Inl\<close> is what was thrown inside it, with the
  trace of what had been done before. The inner \<^verbatim>\<open>catch\<close> around \<^verbatim>\<open>sendSms\<close>
  reads \<^verbatim>\<open>smsErr.message\<close>, so it throws a TypeError itself when the SMS transport
  rejects with null or undefined.
\<close>

definition sendScheduledReminder_try ::
  "env \<Rightarrow> booking \<Rightarrow> string \<Rightarrow> bool \<Rightarrow> event list \<Rightarrow> (thrown + reminderResult) \<times> event list" where
  "sendScheduledReminder_try e b type io tr =
     (case technicianId b of
        None \<Rightarrow> (Inr \<lparr>success = False, reason = Some ''No technician assigned'', error = None\<rparr>, tr)
      | Some technicianProfileId \<Rightarrow>
          (case technicianProfileFindById e technicianProfileId of
             Inl err \<Rightarrow> (Inl (Error err), tr)
           | Inr techProfile \<Rightarrow>
               (let techName = techNameOf techProfile;
                    techPhone = techPhoneOf techProfile;
                    scheduledDate = scheduledDateOf e b
                in case messages techName scheduledDate type of
                     None \<Rightarrow>
                       (Inr \<lparr>success = False, reason = Some ''Unknown reminder type'', error = None\<rparr>, tr)
                   | Some msg \<Rightarrow>
                       (let tr1 = tr @ [PushNotification technicianProfileId (title msg) (body msg)
                                          (''reminder_'' @ type) (bid b)]
                        in case sendPushNotification e technicianProfileId of
                             Some err \<Rightarrow> (Inl err, tr1)
                           | None \<Rightarrow>
                               (let tr2 = (if io
                                           then tr1 @ [SocketNotification technicianProfileId type
                                                         (bid b) (scheduledAt b) (body msg)]
                                           else tr1);
                                    sent = (\<lambda>tr3.
                                      (Inr \<lparr>success = True, reason = None, error = None\<rparr>,
                                       tr3 @ [ConsoleLog ''[REMINDER] Sent to technician'' (bid b)]))
                                in case techPhone of
                                     None \<Rightarrow> sent tr2
                                   | Some phone \<Rightarrow>
                                       if type = ''h1'' \<or> type = ''min15'' then
                                         (case sendSms e phone of
                                            None \<Rightarrow> sent (tr2 @ [Sms phone (body msg)])
                                          | Some (Error smsErr) \<Rightarrow>
                                              sent (tr2 @ [Sms phone (body msg),
                                                           ConsoleWarn ''SMS failed for tech'' smsErr])
                                          | Some Nullish \<Rightarrow>
                                              (Inl (Error typeErrorMessage),
                                               tr2 @ [Sms phone (body msg)]))
                                       else sent tr2)))))"

text \<open>
  The function with its \<^verbatim>\<open>catch\<close>, which logs and returns \<^verbatim>\<open>err.message\<close>. When
  what was thrown is null or undefined, reading its \<^verbatim>\<open>message\<close> throws a TypeError out
  of the \<^verbatim>\<open>catch\<close>: \<open>Inl\<close> is the message of an error that reaches the caller.
\<close>

definition sendScheduledReminder ::
  "env \<Rightarrow> booking \<Rightarrow> string \<Rightarrow> bool \<Rightarrow> event list \<Rightarrow> (string + reminderResult) \<times> event list" where
  "sendScheduledReminder e b type io tr =
     (case sendScheduledReminder_try e b type io tr of
        (Inl (Error err), tr') \<Rightarrow>
          (Inr \<lparr>success = False, reason = None, error = Some err\<rparr>,
           tr' @ [ConsoleError ''sendScheduledReminder error'' None err])
      | (Inl Nullish, tr') \<Rightarrow> (Inl typeErrorMessage, tr')
      | (Inr r, tr') \<Rightarrow> (Inr r, tr'))"

subsection \<open>notifyCustomerOfRebroadcast\<close>

definition rebroadcastMessage :: string where
  "rebroadcastMessage =
     ''Your previous technician couldn't make it on time. We're finding you a new technician right away!''"

text \<open>
  The customer lookup and the SMS are inside the inner \<^verbatim>\<open>try\<close>, whose \<^verbatim>\<open>catch\<close>
  reads \<^verbatim>\<open>smsErr.message\<close>: when the SMS transport rejects with null or undefined that
  throws a TypeError, which the outer \<^verbatim>\<open>catch\<close> logs. The function itself never
  throws; it only extends the trace.
\<close>

definition notifyCustomerOfRebroadcast :: "env \<Rightarrow> booking \<Rightarrow> bool \<Rightarrow> event list \<Rightarrow> event list" where
  "notifyCustomerOfRebroadcast e b io tr =
     (case customerId b of
        None \<Rightarrow> tr
      | Some customer \<Rightarrow>
          (let tr1 = (if io then tr @ [EmitRebroadcast customer (bid b)] else tr);
               notified = (\<lambda>tr2. tr2 @ [ConsoleLog ''Customer notified of re-broadcast'' (bid b)])
           in case userFindById e customer of
                Inl smsErr \<Rightarrow> notified (tr1 @ [ConsoleWarn ''Customer SMS failed'' smsErr])
              | Inr u \<Rightarrow>
                  (case truthy (case u of None \<Rightarrow> None | Some c \<Rightarrow> mobileNumber c) of
                     None \<Rightarrow> notified tr1
                   | Some phone \<Rightarrow>
                       (case sendSms e phone of
                          None \<Rightarrow>
                            notified (tr1 @ [Sms phone (Some (''RightTouch: '' @ rebroadcastMessage))])
                        | Some (Error smsErr) \<Rightarrow>
                            notified (tr1 @ [Sms phone (Some (''RightTouch: '' @ rebroadcastMessage)),
                                             ConsoleWarn ''Customer SMS failed'' smsErr])
                        | Some Nullish \<Rightarrow>
                            tr1 @ [Sms phone (Some (''RightTouch: '' @ rebroadcastMessage)),
                                   ConsoleError ''notifyCustomerOfRebroadcast error'' None
                                     typeErrorMessage]))))"

subsection \<open>CRON 2, 3, 4: the reminder jobs\<close>

text \<open>
  Each job: its query, the body of its loop with its own try/catch, and the job. The
  composer's result is not looked at: when the composer returns, the flag is set.
\<close>

definition sendReminders24h_query :: "int \<Rightarrow> booking \<Rightarrow> bool" where
  "sendReminders24h_query now d =
     (let windowMin = now + 23 * 60 * 60 * 1000;   \<comment> \<open>now + 23h\<close>
          windowMax = now + 25 * 60 * 60 * 1000    \<comment> \<open>now + 25h\<close>
      in status d = ''accepted''
         \<and> date_gte (scheduledAt d) windowMin \<and> date_lte (scheduledAt d) windowMax
         \<and> h24 (reminders d) = False)"

definition sendReminders24h_booking :: "env \<Rightarrow> bool \<Rightarrow> booking \<Rightarrow> world \<Rightarrow> world" where
  "sendReminders24h_booking e io b w =
     (case sendScheduledReminder e b ''h24'' io (snd w @ [SendScheduledReminder (bid b) ''h24'']) of
        (Inl err, tr) \<Rightarrow> (fst w, tr @ [ConsoleError ''[CRON:24H] Booking'' (Some (bid b)) err])
      | (Inr r, tr) \<Rightarrow>
          (case updateOne e (bid b) (\<lambda>d. True)
                  (\<lambda>d. d\<lparr>reminders := (reminders d)\<lparr>h24 := True\<rparr>\<rparr>) (fst w) of
             Inl err \<Rightarrow> (fst w, tr @ [ConsoleError ''[CRON:24H] Booking'' (Some (bid b)) err])
           | Inr (docs, res) \<Rightarrow> (docs, tr)))"

definition sendReminders24h :: "env \<Rightarrow> bool \<Rightarrow> int \<Rightarrow> world \<Rightarrow> world" where
  "sendReminders24h e io now w =
     (case find_docs e (sendReminders24h_query now) (fst w) of
        Inl err \<Rightarrow> (fst w, snd w @ [ConsoleError ''[CRON:24H] Fatal error'' None err])
      | Inr bookings \<Rightarrow>
          if length bookings = 0 then w
          else for_each (sendReminders24h_booking e io) bookings
                 (fst w, snd w @ [ConsoleLog ''[CRON:24H] Sending reminders to'' (length bookings)]))"

definition sendReminders1h_query :: "int \<Rightarrow> booking \<Rightarrow> bool" where
  "sendReminders1h_query now d =
     (let windowMin = now + 55 * 60 * 1000;   \<comment> \<open>now + 55 min\<close>
          windowMax = now + 65 * 60 * 1000    \<comment> \<open>now + 65 min\<close>
      in status d = ''accepted''
         \<and> date_gte (scheduledAt d) windowMin \<and> date_lte (scheduledAt d) windowMax
         \<and> h1 (reminders d) = False)"

definition sendReminders1h_booking :: "env \<Rightarrow> bool \<Rightarrow> booking \<Rightarrow> world \<Rightarrow> world" where
  "sendReminders1h_booking e io b w =
     (case sendScheduledReminder e b ''h1'' io (snd w @ [SendScheduledReminder (bid b) ''h1'']) of
        (Inl err, tr) \<Rightarrow> (fst w, tr @ [ConsoleError ''[CRON:1H] Booking'' (Some (bid b)) err])
      | (Inr r, tr) \<Rightarrow>
          (case updateOne e (bid b) (\<lambda>d. True)
                  (\<lambda>d. d\<lparr>reminders := (reminders d)\<lparr>h1 := True\<rparr>\<rparr>) (fst w) of
             Inl err \<Rightarrow> (fst w, tr @ [ConsoleError ''[CRON:1H] Booking'' (Some (bid b)) err])
           | Inr (docs, res) \<Rightarrow> (docs, tr)))"

definition sendReminders1h :: "env \<Rightarrow> bool \<Rightarrow> int \<Rightarrow> world \<Rightarrow> world" where
  "sendReminders1h e io now w =
     (case find_docs e (sendReminders1h_query now) (fst w) of
        Inl err \<Rightarrow> (fst w, snd w @ [ConsoleError ''[CRON:1H] Fatal error'' None err])
      | Inr bookings \<Rightarrow>
          if length bookings = 0 then w
          else for_each (sendReminders1h_booking e io) bookings
                 (fst w, snd w @ [ConsoleLog ''[CRON:1H] Sending reminders to'' (length bookings)]))"

text \<open>\<^verbatim>\<open>coordinates?.[i]\<close>\<close>

definition coordinate :: "int list option \<Rightarrow> nat \<Rightarrow> int option" where
  "coordinate cs i =
     (case cs of None \<Rightarrow> None | Some xs \<Rightarrow> if i < length xs then Some (xs ! i) else None)"

text \<open>
  The navigation emit of the 15-minute job. A coordinate that is 0 is falsy, as a missing
  one is.
\<close>

definition navigate :: "bool \<Rightarrow> booking \<Rightarrow> event list \<Rightarrow> event list" where
  "navigate io b tr =
     (if io then
        (let lat = (case (case address b of None \<Rightarrow> None | Some a \<Rightarrow> latitude a) of
                      Some x \<Rightarrow> Some x | None \<Rightarrow> coordinate (coordinates b) 1);
             lng = (case (case address b of None \<Rightarrow> None | Some a \<Rightarrow> longitude a) of
                      Some x \<Rightarrow> Some x | None \<Rightarrow> coordinate (coordinates b) 0)
         in case (technicianId b, lat, lng) of
              (Some techId, Some la, Some lo) \<Rightarrow>
                if la \<noteq> 0 \<and> lo \<noteq> 0 then tr @ [EmitNavigate techId (bid b) la lo] else tr
            | _ \<Rightarrow> tr)
      else tr)"

definition sendReminders15min_query :: "int \<Rightarrow> booking \<Rightarrow> bool" where
  "sendReminders15min_query now d =
     (let windowMin = now + 10 * 60 * 1000;   \<comment> \<open>now + 10 min\<close>
          windowMax = now + 20 * 60 * 1000    \<comment> \<open>now + 20 min\<close>
      in status d = ''accepted''
         \<and> date_gte (scheduledAt d) windowMin \<and> date_lte (scheduledAt d) windowMax
         \<and> min15 (reminders d) = False)"

definition sendReminders15min_booking :: "env \<Rightarrow> bool \<Rightarrow> booking \<Rightarrow> world \<Rightarrow> world" where
  "sendReminders15min_booking e io b w =
     (case sendScheduledReminder e b ''min15'' io (snd w @ [SendScheduledReminder (bid b) ''min15'']) of
        (Inl err, tr) \<Rightarrow> (fst w, tr @ [ConsoleError ''[CRON:15MIN] Booking'' (Some (bid b)) err])
      | (Inr r, tr) \<Rightarrow>
          (let tr' = navigate io b tr
           in case updateOne e (bid b) (\<lambda>d. True)
                     (\<lambda>d. d\<lparr>reminders := (reminders d)\<lparr>min15 := True\<rparr>\<rparr>) (fst w) of
                Inl err \<Rightarrow> (fst w, tr' @ [ConsoleError ''[CRON:15MIN] Booking'' (Some (bid b)) err])
              | Inr (docs, res) \<Rightarrow> (docs, tr')))"

definition sendReminders15min :: "env \<Rightarrow> bool \<Rightarrow> int \<Rightarrow> world \<Rightarrow> world" where
  "sendReminders15min e io now w =
     (case find_docs e (sendReminders15min_query now) (fst w) of
        Inl err \<Rightarrow> (fst w, snd w @ [ConsoleError ''[CRON:15MIN] Fatal error'' None err])
      | Inr bookings \<Rightarrow>
          if length bookings = 0 then w
          else for_each (sendReminders15min_booking e io) bookings
                 (fst w, snd w @ [ConsoleLog ''[CRON:15MIN] Sending reminders to'' (length bookings)]))"

subsection \<open>The three reminder jobs in one form\<close>

text \<open>
  The three jobs differ in their window, their flag, the reminder type they pass on and
  their log tag; the 15-minute job also emits the navigation coordinates. The definitions
  below state them once, by kind; they are shown equal to the three jobs above
  (\<open>sendReminders24h_eq\<close>, \<open>sendReminders1h_eq\<close>, \<open>sendReminders15min_eq\<close>)
  and serve the statements and proofs that hold for every kind.
\<close>

datatype reminderKind = H24 | H1 | Min15

fun typeName :: "reminderKind \<Rightarrow> string" where
  "typeName H24 = ''h24''"
| "typeName H1 = ''h1''"
| "typeName Min15 = ''min15''"

fun cronTag :: "reminderKind \<Rightarrow> string" where
  "cronTag H24 = ''[CRON:24H]''"
| "cronTag H1 = ''[CRON:1H]''"
| "cronTag Min15 = ''[CRON:15MIN]''"

fun windowMin :: "reminderKind \<Rightarrow> int \<Rightarrow> int" where
  "windowMin H24 now = now + 23 * 60 * 60 * 1000"
| "windowMin H1 now = now + 55 * 60 * 1000"
| "windowMin Min15 now = now + 10 * 60 * 1000"

fun windowMax :: "reminderKind \<Rightarrow> int \<Rightarrow> int" where
  "windowMax H24 now = now + 25 * 60 * 60 * 1000"
| "windowMax H1 now = now + 65 * 60 * 1000"
| "windowMax Min15 now = now + 20 * 60 * 1000"

fun flag :: "reminderKind \<Rightarrow> booking \<Rightarrow> bool" where
  "flag H24 d = h24 (reminders d)"
| "flag H1 d = h1 (reminders d)"
| "flag Min15 d = min15 (reminders d)"

fun setFlag :: "reminderKind \<Rightarrow> booking \<Rightarrow> booking" where
  "setFlag H24 d = d\<lparr>reminders := (reminders d)\<lparr>h24 := True\<rparr>\<rparr>"
| "setFlag H1 d = d\<lparr>reminders := (reminders d)\<lparr>h1 := True\<rparr>\<rparr>"
| "setFlag Min15 d = d\<lparr>reminders := (reminders d)\<lparr>min15 := True\<rparr>\<rparr>"

definition reminder_query :: "reminderKind \<Rightarrow> int \<Rightarrow> booking \<Rightarrow> bool" where
  "reminder_query k now d =
     (status d = ''accepted''
      \<and> date_gte (scheduledAt d) (windowMin k now) \<and> date_lte (scheduledAt d) (windowMax k now)
      \<and> flag k d = False)"

definition reminder_booking :: "reminderKind \<Rightarrow> env \<Rightarrow> bool \<Rightarrow> booking \<Rightarrow> world \<Rightarrow> world" where
  "reminder_booking k e io b w =
     (case sendScheduledReminder e b (typeName k) io
             (snd w @ [SendScheduledReminder (bid b) (typeName k)]) of
        (Inl err, tr) \<Rightarrow> (fst w, tr @ [ConsoleError (cronTag k @ '' Booking'') (Some (bid b)) err])
      | (Inr r, tr) \<Rightarrow>
          (let tr' = (if k = Min15 then navigate io b tr else tr)
           in case updateOne e (bid b) (\<lambda>d. True) (setFlag k) (fst w) of
                Inl err \<Rightarrow> (fst w, tr' @ [ConsoleError (cronTag k @ '' Booking'') (Some (bid b)) err])
              | Inr (docs, res) \<Rightarrow> (docs, tr')))"

definition reminder_job :: "reminderKind \<Rightarrow> env \<Rightarrow> bool \<Rightarrow> int \<Rightarrow> world \<Rightarrow> world" where
  "reminder_job k e io now w =
     (case find_docs e (reminder_query k now) (fst w) of
        Inl err \<Rightarrow> (fst w, snd w @ [ConsoleError (cronTag k @ '' Fatal error'') None err])
      | Inr bookings \<Rightarrow>
          if length bookings = 0 then w
          else for_each (reminder_booking k e io) bookings
                 (fst w, snd w @ [ConsoleLog (cronTag k @ '' Sending reminders to'') (length bookings)]))"

subsection \<open>CRON 5: handleNoShowSafety\<close>

definition noShow_query :: "int \<Rightarrow> booking \<Rightarrow> bool" where
  "noShow_query now d =
     (let cutoffTime = now - 30 * 60 * 1000
      in status d = ''accepted'' \<and> date_lte (scheduledAt d) cutoffTime
         \<and> noShowAt d = None \<and> technicianId d \<noteq> None)"

text \<open>The \<^verbatim>\<open>$set\<close> of the recovery.\<close>

definition recover :: "int \<Rightarrow> booking \<Rightarrow> booking" where
  "recover now d =
     d\<lparr>technicianId := None, status := ''requested'', noShowAt := Some now,
       reminders := (reminders d)\<lparr>h24 := False, h1 := False, min15 := False\<rparr>,
       assignedAt := None\<rparr>"

text \<open>The body of the loop, with its own try/catch.\<close>

definition noShow_booking :: "env \<Rightarrow> bool \<Rightarrow> int \<Rightarrow> booking \<Rightarrow> world \<Rightarrow> world" where
  "noShow_booking e io now b w =
     (case findOneAndUpdate e (bid b) (\<lambda>d. status d = ''accepted'' \<and> noShowAt d = None)
             (recover now) (fst w) of
        Inl err \<Rightarrow>
          (fst w, snd w @ [ConsoleError ''[CRON:NOSHOW] Error for booking'' (Some (bid b)) err])
      | Inr (docs, updated) \<Rightarrow>
          (case updated of
             None \<Rightarrow> (docs, snd w)
           | Some u \<Rightarrow>
               (let tr1 = snd w @ [ConsoleLog ''[CRON:NOSHOW] Unassigned technician'' (bid b),
                                   MatchAndBroadcast (bid b)]
                in case matchAndBroadcastBooking e (bid b) of
                     Inl err \<Rightarrow>
                       (docs, tr1 @ [ConsoleError ''[CRON:NOSHOW] Error for booking'' (Some (bid b)) err])
                   | Inr result \<Rightarrow>
                       (docs, notifyCustomerOfRebroadcast e b io
                                (tr1 @ [ConsoleLog ''[CRON:NOSHOW] Booking re-broadcast'' (bid b),
                                        NotifyCustomerOfRebroadcast (bid b)])))))"

definition handleNoShowSafety :: "env \<Rightarrow> bool \<Rightarrow> int \<Rightarrow> world \<Rightarrow> world" where
  "handleNoShowSafety e io now w =
     (case find_docs e (noShow_query now) (fst w) of
        Inl err \<Rightarrow> (fst w, snd w @ [ConsoleError ''[CRON:NOSHOW] Fatal error'' None err])
      | Inr noShows \<Rightarrow>
          if length noShows = 0 then w
          else for_each (noShow_booking e io now) noShows
                 (fst w, snd w @ [ConsoleLog ''[CRON:NOSHOW] Detected'' (length noShows)]))"

subsection \<open>Sequences of ticks\<close>

datatype job = Activate | Reminders24h | Reminders1h | Reminders15min | NoShowSafety

text \<open>One tick: which job fires, what the collaborators do during it, and the time.\<close>

record tick =
  tick_job :: job
  tick_env :: env
  tick_io :: bool
  tick_now :: int

fun run_job :: "job \<Rightarrow> env \<Rightarrow> bool \<Rightarrow> int \<Rightarrow> world \<Rightarrow> world" where
  "run_job Activate = activateScheduledBookings"
| "run_job Reminders24h = sendReminders24h"
| "run_job Reminders1h = sendReminders1h"
| "run_job Reminders15min = sendReminders15min"
| "run_job NoShowSafety = handleNoShowSafety"

definition run_tick :: "tick \<Rightarrow> world \<Rightarrow> world" where
  "run_tick t = run_job (tick_job t) (tick_env t) (tick_io t) (tick_now t)"

text \<open>The worlds a sequence of ticks goes through, the first one included.\<close>

fun history :: "tick list \<Rightarrow> world \<Rightarrow> world list" where
  "history [] w = [w]"
| "history (t # ts) w = w # history ts (run_tick t w)"

text \<open>The value of a booking's reminder flag in a world (false while there is no such booking).\<close>

definition flagOf :: "reminderKind \<Rightarrow> nat \<Rightarrow> world \<Rightarrow> bool" where
  "flagOf k i w = (case findById i (fst w) of None \<Rightarrow> False | Some d \<Rightarrow> flag k d)"

text \<open>How often a sequence of values goes from false to true.\<close>

fun rises :: "bool list \<Rightarrow> nat" where
  "rises (a # b # xs) = (if \<not> a \<and> b then 1 else 0) + rises (b # xs)"
| "rises _ = 0"

text \<open>How often the no-show job has recovered a booking, as its log shows.\<close>

definition recoveries :: "nat \<Rightarrow> world \<Rightarrow> nat" where
  "recoveries i w = count_list (snd w) (ConsoleLog ''[CRON:NOSHOW] Unassigned technician'' i)"

subsection \<open>Notions used in the statements and proofs\<close>

text \<open>What the status flip does to the document it is applied to.\<close>

definition scheduledToRequested :: "booking \<Rightarrow> booking" where
  "scheduledToRequested d = (if status d = ''scheduled'' then d\<lparr>status := ''requested''\<rparr> else d)"

text \<open>The guard of the recovery, and what the recovery does to the document it is applied to.\<close>

definition guardHolds :: "booking option \<Rightarrow> bool" where
  "guardHolds x = (case x of None \<Rightarrow> False | Some d \<Rightarrow> status d = ''accepted'' \<and> noShowAt d = None)"

definition recoverIfGuard :: "int \<Rightarrow> booking \<Rightarrow> booking" where
  "recoverIfGuard now d = (if status d = ''accepted'' \<and> noShowAt d = None then recover now d else d)"

subsection \<open>Example data\<close>

text \<open>Collaborators that all succeed.\<close>

definition quietEnv :: env where
  "quietEnv =
     \<lparr>findRejects = None,
      updateRejects = (\<lambda>i. None),
      matchAndBroadcastBooking = (\<lambda>i. Inr (Some 3)),
      technicianProfileFindById =
        (\<lambda>i. Inr (Some (Some \<lparr>fname = Some ''Asha'', mobileNumber = Some ''9000000001''\<rparr>))),
      userFindById = (\<lambda>i. Inr (Some \<lparr>fname = Some ''Ravi'', mobileNumber = Some ''9000000002''\<rparr>)),
      sendPushNotification = (\<lambda>i. None),
      sendSms = (\<lambda>p. None),
      toLocaleString = (\<lambda>t. ''01 Jan 2026, 10:00 am'')\<rparr>"


text \<open>A booking of customer 901, assigned to technician 501 unless it is still scheduled.\<close>

definition exampleBooking :: "nat \<Rightarrow> string \<Rightarrow> int \<Rightarrow> booking" where
  "exampleBooking i st t =
     \<lparr>bid = i, status = st, scheduledAt = Some t,
      technicianId = (if st = ''scheduled'' then None else Some 501),
      customerId = Some 901,
      reminders = \<lparr>h24 = False, h1 = False, min15 = False\<rparr>,
      noShowAt = None,
      assignedAt = (if st = ''scheduled'' then None else Some 1000),
      address = None, coordinates = None\<rparr>"

text \<open>A tick during which every collaborator succeeds.\<close>

definition exampleTick :: "job \<Rightarrow> int \<Rightarrow> tick" where
  "exampleTick j t = \<lparr>tick_job = j, tick_env = quietEnv, tick_io = True, tick_now = t\<rparr>"

section \<open>Properties\<close>

subsection \<open>The store's updates\<close>

lemma updateFirst_none: "find p xs = None \<Longrightarrow> updateFirst p f xs = xs"
  by (induction xs) (auto split: if_splits)

lemma map_bid_updateFirst:
  "(\<And>x. bid (f x) = bid x) \<Longrightarrow> map bid (updateFirst p f xs) = map bid xs"
  by (induction xs) auto

lemma findById_updateFirst:
  "(\<And>x. bid (f x) = bid x) \<Longrightarrow>
   findById j (updateFirst (\<lambda>d. bid d = i \<and> q d) f xs)
     = map_option (\<lambda>d. if j = i \<and> q d then f d else d) (findById j xs)"
  by (induction xs) (auto simp: findById_def option.map_ident)

lemma find_none_distinct:
  "distinct (map bid xs) \<Longrightarrow> findById i xs = Some d \<Longrightarrow> \<not> q d
   \<Longrightarrow> find (\<lambda>d. bid d = i \<and> q d) xs = None"
  by (induction xs) (auto simp: findById_def find_None_iff image_iff split: if_splits)

lemma find_some_first:
  "findById i xs = Some d \<Longrightarrow> q d \<Longrightarrow> find (\<lambda>d. bid d = i \<and> q d) xs = Some d"
  by (induction xs) (auto simp: findById_def split: if_splits)

lemma findById_member:
  "distinct (map bid xs) \<Longrightarrow> d \<in> set xs \<Longrightarrow> findById (bid d) xs = Some d"
  by (induction xs) (auto simp: findById_def image_iff)

subsection \<open>Loops over the selected bookings\<close>

lemma for_each_other:
  assumes "I w"
    and "\<And>x w. I w \<Longrightarrow> I (step x w)"
    and "\<And>x w. I w \<Longrightarrow> x \<in> set bs \<Longrightarrow> g (step x w) = g w"
  shows "g (for_each step bs w) = g w"
  using assms(1,3)
proof (induction bs arbitrary: w)
  case Nil
  then show ?case by simp
next
  case (Cons x xs)
  have "g (for_each step xs (step x w)) = g (step x w)"
    using Cons.prems(1) Cons.prems(2) by (intro Cons.IH assms(2)) auto
  then show ?case using Cons.prems by simp
qed

lemma for_each_one:
  assumes "I w"
    and "\<And>x w. I w \<Longrightarrow> I (step x w)"
    and "distinct (map bid bs)"
    and "b \<in> set bs"
    and "\<And>x w. I w \<Longrightarrow> bid x \<noteq> bid b \<Longrightarrow> g (step x w) = g w"
    and "\<And>w. I w \<Longrightarrow> g (step b w) = h (g w)"
  shows "g (for_each step bs w) = h (g w)"
  using assms(1,3,4)
proof (induction bs arbitrary: w)
  case Nil
  then show ?case by simp
next
  case (Cons x xs)
  show ?case
  proof (cases "x = b")
    case True
    have nb: "\<And>y. y \<in> set xs \<Longrightarrow> bid y \<noteq> bid b"
      using Cons.prems(2) True by (auto simp: image_iff)
    have Ib: "I (step b w)" using Cons.prems(1) by (rule assms(2))
    have "g (for_each step xs (step b w)) = g (step b w)"
    proof (rule for_each_other [where I = I])
      show "I (step b w)" by (rule Ib)
      show "\<And>x w. I w \<Longrightarrow> I (step x w)" by (rule assms(2))
      show "\<And>x w. I w \<Longrightarrow> x \<in> set xs \<Longrightarrow> g (step x w) = g w"
        using assms(5) nb by blast
    qed
    then show ?thesis using True assms(6) [OF Cons.prems(1)] by simp
  next
    case False
    then have mem: "b \<in> set xs" using Cons.prems(3) by simp
    have ne: "bid x \<noteq> bid b" using Cons.prems(2) mem by (auto simp: image_iff)
    have Ix: "I (step x w)" using Cons.prems(1) by (rule assms(2))
    have "g (for_each step xs (step x w)) = h (g (step x w))"
      using Ix Cons.prems(2) mem by (intro Cons.IH) auto
    then show ?thesis using assms(5) [OF Cons.prems(1) ne] by simp
  qed
qed

lemma for_each_mono:
  fixes m :: "world \<Rightarrow> nat"
  shows "(\<And>x w. m w \<le> m (step x w)) \<Longrightarrow> m w \<le> m (for_each step bs w)"
proof (induction bs arbitrary: w)
  case Nil
  then show ?case by simp
next
  case (Cons x xs)
  have "m w \<le> m (step x w)" by (rule Cons.prems)
  also have "\<dots> \<le> m (for_each step xs (step x w))" by (rule Cons.IH) (rule Cons.prems)
  finally show ?case by simp
qed

lemma for_each_keeps:
  "P w \<Longrightarrow> (\<And>x w. P w \<Longrightarrow> P (step x w)) \<Longrightarrow> P (for_each step bs w)"
  by (induction bs arbitrary: w) auto

subsection \<open>What one loop body does\<close>

lemma activate_booking_other:
  "bid b \<noteq> i \<Longrightarrow>
   findById i (fst (activate_booking e io b w)) = findById i (fst w)
   \<and> count_list (snd (activate_booking e io b w)) (MatchAndBroadcast i)
       = count_list (snd w) (MatchAndBroadcast i)"
  by (auto simp: activate_booking_def activate_update_def updateOne_def findById_updateFirst
        option.map_ident split: sum.splits option.splits)

lemma activate_booking_same:
  "updateRejects e (bid b) = None \<Longrightarrow>
   findById (bid b) (fst (activate_booking e io b w))
      = map_option scheduledToRequested (findById (bid b) (fst w))
   \<and> count_list (snd (activate_booking e io b w)) (MatchAndBroadcast (bid b))
       = count_list (snd w) (MatchAndBroadcast (bid b)) + 1"
  by (auto simp: activate_booking_def activate_update_def updateOne_def findById_updateFirst
        scheduledToRequested_def
        split: sum.splits option.splits intro!: option.map_cong)

lemma find_guard_distinct:
  "distinct (map bid xs) \<Longrightarrow>
   find (\<lambda>d. bid d = i \<and> q d) xs
     = (case findById i xs of None \<Rightarrow> None | Some d \<Rightarrow> if q d then Some d else None)"
proof (cases "findById i xs")
  case None
  then have "find (\<lambda>d. bid d = i \<and> q d) xs = None"
    by (auto simp: findById_def find_None_iff)
  then show ?thesis using None by simp
next
  case (Some d)
  assume dist: "distinct (map bid xs)"
  show ?thesis
  proof (cases "q d")
    case True
    then show ?thesis using Some by (simp add: find_some_first)
  next
    case False
    then show ?thesis using Some dist by (simp add: find_none_distinct)
  qed
qed

lemma notify_count:
  "count_list (notifyCustomerOfRebroadcast e b io tr) (MatchAndBroadcast i)
     = count_list tr (MatchAndBroadcast i)"
  "count_list (notifyCustomerOfRebroadcast e b io tr) (NotifyCustomerOfRebroadcast i)
     = count_list tr (NotifyCustomerOfRebroadcast i)"
  "count_list (notifyCustomerOfRebroadcast e b io tr)
       (ConsoleLog ''[CRON:NOSHOW] Unassigned technician'' i)
     = count_list tr (ConsoleLog ''[CRON:NOSHOW] Unassigned technician'' i)"
  by (simp_all add: notifyCustomerOfRebroadcast_def Let_def
        split: option.split sum.split thrown.split)

lemma bid_recover: "bid (recover now d) = bid d"
  by (simp add: recover_def)

lemma noShow_booking_ids: "map bid (fst (noShow_booking e io now b w)) = map bid (fst w)"
  by (auto simp: noShow_booking_def findOneAndUpdate_def map_bid_updateFirst bid_recover Let_def
        split: sum.splits option.splits)

lemma noShow_booking_other:
  "bid b \<noteq> i \<Longrightarrow>
   findById i (fst (noShow_booking e io now b w)) = findById i (fst w)
   \<and> count_list (snd (noShow_booking e io now b w)) (MatchAndBroadcast i)
       = count_list (snd w) (MatchAndBroadcast i)
   \<and> count_list (snd (noShow_booking e io now b w)) (NotifyCustomerOfRebroadcast i)
       = count_list (snd w) (NotifyCustomerOfRebroadcast i)"
  by (auto simp: noShow_booking_def findOneAndUpdate_def findById_updateFirst bid_recover
        option.map_ident notify_count Let_def split: sum.splits option.splits)

lemma noShow_booking_same:
  assumes "distinct (map bid (fst w))"
    and "updateRejects e (bid b) = None"
    and "matchAndBroadcastBooking e (bid b) = Inr c"
  shows "findById (bid b) (fst (noShow_booking e io now b w))
           = map_option (recoverIfGuard now) (findById (bid b) (fst w))
   \<and> count_list (snd (noShow_booking e io now b w)) (MatchAndBroadcast (bid b))
       = count_list (snd w) (MatchAndBroadcast (bid b))
         + (if guardHolds (findById (bid b) (fst w)) then 1 else 0)
   \<and> count_list (snd (noShow_booking e io now b w)) (NotifyCustomerOfRebroadcast (bid b))
       = count_list (snd w) (NotifyCustomerOfRebroadcast (bid b))
         + (if guardHolds (findById (bid b) (fst w)) then 1 else 0)"
proof -
  have look: "findById (bid b) (fst (noShow_booking e io now b w))
           = map_option (recoverIfGuard now) (findById (bid b) (fst w))"
    using assms(2)
    by (auto simp: noShow_booking_def findOneAndUpdate_def findById_updateFirst bid_recover
          recoverIfGuard_def Let_def split: sum.splits option.splits intro!: option.map_cong)
  have g: "find (\<lambda>d. bid d = bid b \<and> status d = ''accepted'' \<and> noShowAt d = None) (fst w)
             = (case findById (bid b) (fst w) of None \<Rightarrow> None
                | Some d \<Rightarrow> if status d = ''accepted'' \<and> noShowAt d = None then Some d else None)"
    using assms(1) by (rule find_guard_distinct)
  have counts: "count_list (snd (noShow_booking e io now b w)) (MatchAndBroadcast (bid b))
       = count_list (snd w) (MatchAndBroadcast (bid b))
         + (if guardHolds (findById (bid b) (fst w)) then 1 else 0)
   \<and> count_list (snd (noShow_booking e io now b w)) (NotifyCustomerOfRebroadcast (bid b))
       = count_list (snd w) (NotifyCustomerOfRebroadcast (bid b))
         + (if guardHolds (findById (bid b) (fst w)) then 1 else 0)"
    using assms(2,3)
    by (auto simp: noShow_booking_def findOneAndUpdate_def g guardHolds_def notify_count Let_def
          split: option.splits)
  show ?thesis using look counts by simp
qed

lemma sendScheduledReminder_try_extends:
  "\<exists>evs. snd (sendScheduledReminder_try e b ty io tr) = tr @ evs"
  by (simp add: sendScheduledReminder_try_def Let_def
        split: option.split sum.split thrown.split)

lemma sendScheduledReminder_extends:
  "\<exists>evs. snd (sendScheduledReminder e b ty io tr) = tr @ evs"
proof -
  obtain evs where "snd (sendScheduledReminder_try e b ty io tr) = tr @ evs"
    using sendScheduledReminder_try_extends by blast
  then show ?thesis
    by (cases "sendScheduledReminder_try e b ty io tr")
       (auto simp: sendScheduledReminder_def split: sum.splits thrown.splits)
qed

lemma sendScheduledReminder_grows:
  "count_list tr x \<le> count_list (snd (sendScheduledReminder e b ty io tr)) x"
proof -
  obtain evs where "snd (sendScheduledReminder e b ty io tr) = tr @ evs"
    using sendScheduledReminder_extends by blast
  then show ?thesis by simp
qed

lemma navigate_grows: "count_list tr x \<le> count_list (navigate io b tr) x"
  by (auto simp: navigate_def Let_def split: option.splits)

lemma notify_extends: "\<exists>evs. notifyCustomerOfRebroadcast e b io tr = tr @ evs"
  by (simp add: notifyCustomerOfRebroadcast_def Let_def
        split: option.split sum.split thrown.split)

lemma notify_grows: "count_list tr x \<le> count_list (notifyCustomerOfRebroadcast e b io tr) x"
proof -
  obtain evs where "notifyCustomerOfRebroadcast e b io tr = tr @ evs"
    using notify_extends by blast
  then show ?thesis by simp
qed

lemma flag_status: "flag k (d\<lparr>status := s\<rparr>) = flag k d"
  by (cases k) simp_all

lemma flag_setFlag: "flag k d \<Longrightarrow> flag k (setFlag k' d)"
  by (cases k; cases k') simp_all

lemma bid_setFlag: "bid (setFlag k d) = bid d"
  by (cases k) simp_all

lemma findById_updateFirst_id:
  "(\<And>x. bid (f x) = bid x) \<Longrightarrow>
   findById j (updateFirst (\<lambda>d. bid d = i) f xs)
     = map_option (\<lambda>d. if j = i then f d else d) (findById j xs)"
  using findById_updateFirst [of f j i "\<lambda>d. True" xs] by simp

lemma activate_booking_flag: "flagOf k i (activate_booking e io b w) = flagOf k i w"
  by (auto simp: flagOf_def activate_booking_def activate_update_def updateOne_def
        findById_updateFirst flag_status split: sum.splits option.splits if_splits)

lemma activate_booking_grows:
  "count_list (snd w) x \<le> count_list (snd (activate_booking e io b w)) x"
  by (auto simp: activate_booking_def split: sum.splits prod.splits)

lemma reminder_booking_flag: "flagOf k i w \<Longrightarrow> flagOf k i (reminder_booking k' e io b w)"
  by (auto simp: flagOf_def reminder_booking_def updateOne_def findById_updateFirst_id
        bid_setFlag flag_setFlag Let_def simp del: setFlag.simps
        split: sum.splits option.splits prod.splits)

lemma reminder_booking_grows:
  "count_list (snd w) x \<le> count_list (snd (reminder_booking k e io b w)) x"
proof -
  let ?start = "snd w @ [SendScheduledReminder (bid b) (typeName k)]"
  obtain r tr where res: "sendScheduledReminder e b (typeName k) io ?start = (r, tr)"
    by force
  have "count_list ?start x \<le> count_list tr x"
    using sendScheduledReminder_grows [of ?start x e b "typeName k" io] res by simp
  then have a: "count_list (snd w) x \<le> count_list tr x" by simp
  have b: "count_list tr x \<le> count_list (navigate io b tr) x" by (rule navigate_grows)
  show ?thesis
    using a b
    by (simp add: reminder_booking_def res Let_def split: sum.split prod.split)
qed

lemma noShow_booking_grows:
  "count_list (snd w) x \<le> count_list (snd (noShow_booking e io now b w)) x"
proof -
  have "count_list (snd w) x \<le> count_list (notifyCustomerOfRebroadcast e b io (snd w @ evs)) x" for evs
    using notify_grows [of "snd w @ evs" x e b io] by simp
  then show ?thesis
    by (simp add: noShow_booking_def Let_def split: sum.split option.split prod.split)
qed

lemma noShow_booking_potential:
  "of_bool (flagOf k i w) + recoveries i w
     \<le> of_bool (flagOf k i (noShow_booking e io now b w)) + recoveries i (noShow_booking e io now b w)"
proof (cases "bid b = i")
  case False
  then have "flagOf k i (noShow_booking e io now b w) = flagOf k i w"
    by (simp add: flagOf_def noShow_booking_other)
  then show ?thesis using noShow_booking_grows by (simp add: recoveries_def)
next
  case True
  show ?thesis
  proof (cases "findOneAndUpdate e (bid b) (\<lambda>d. status d = ''accepted'' \<and> noShowAt d = None)
             (recover now) (fst w)")
    case (Inl err)
    then show ?thesis by (simp add: noShow_booking_def flagOf_def recoveries_def)
  next
    case (Inr r)
    obtain docs updated where r: "r = (docs, updated)" by (cases r)
    show ?thesis
    proof (cases updated)
      case None
      then have "find (\<lambda>d. bid d = bid b \<and> status d = ''accepted'' \<and> noShowAt d = None) (fst w) = None"
        using Inr r by (auto simp: findOneAndUpdate_def split: option.splits)
      moreover have "updateRejects e (bid b) = None"
        using Inr by (auto simp: findOneAndUpdate_def split: option.splits)
      ultimately have "noShow_booking e io now b w = w"
        by (simp add: noShow_booking_def findOneAndUpdate_def updateFirst_none)
      then show ?thesis by simp
    next
      case (Some u)
      have "recoveries i (noShow_booking e io now b w) = recoveries i w + 1"
        using Inr r Some True
        by (simp add: noShow_booking_def recoveries_def Let_def notify_count split: sum.split)
      then show ?thesis by (simp add: of_bool_def)
    qed
  qed
qed

subsection \<open>The three reminder jobs are the one form at their kind\<close>

lemma setFlag_fun:
  "setFlag H24 = (\<lambda>d. d\<lparr>reminders := (reminders d)\<lparr>h24 := True\<rparr>\<rparr>)"
  "setFlag H1 = (\<lambda>d. d\<lparr>reminders := (reminders d)\<lparr>h1 := True\<rparr>\<rparr>)"
  "setFlag Min15 = (\<lambda>d. d\<lparr>reminders := (reminders d)\<lparr>min15 := True\<rparr>\<rparr>)"
  by (rule ext, simp)+

lemma reminder_query_eq:
  "sendReminders24h_query now = reminder_query H24 now"
  "sendReminders1h_query now = reminder_query H1 now"
  "sendReminders15min_query now = reminder_query Min15 now"
  by (rule ext,
      simp add: sendReminders24h_query_def sendReminders1h_query_def sendReminders15min_query_def
        reminder_query_def)+

lemma reminder_booking_eq:
  "sendReminders24h_booking e io = reminder_booking H24 e io"
  "sendReminders1h_booking e io = reminder_booking H1 e io"
  "sendReminders15min_booking e io = reminder_booking Min15 e io"
  by (intro ext,
      simp add: sendReminders24h_booking_def sendReminders1h_booking_def
        sendReminders15min_booking_def reminder_booking_def setFlag_fun Let_def
        del: setFlag.simps split: prod.split sum.split)+

lemma sendReminders24h_eq: "sendReminders24h = reminder_job H24"
  by (intro ext)
     (simp add: sendReminders24h_def reminder_job_def reminder_query_eq reminder_booking_eq
        split: sum.split)

lemma sendReminders1h_eq: "sendReminders1h = reminder_job H1"
  by (intro ext)
     (simp add: sendReminders1h_def reminder_job_def reminder_query_eq reminder_booking_eq
        split: sum.split)

lemma sendReminders15min_eq: "sendReminders15min = reminder_job Min15"
  by (intro ext)
     (simp add: sendReminders15min_def reminder_job_def reminder_query_eq reminder_booking_eq
        split: sum.split)

subsection \<open>What a reminder job does to one booking\<close>

lemma sendScheduledReminder_try_marker:
  "count_list (snd (sendScheduledReminder_try e b ty io tr)) (SendScheduledReminder i ty')
     = count_list tr (SendScheduledReminder i ty')"
  by (simp add: sendScheduledReminder_try_def Let_def
        split: option.split sum.split thrown.split)

lemma sendScheduledReminder_marker:
  "count_list (snd (sendScheduledReminder e b ty io tr)) (SendScheduledReminder i ty')
     = count_list tr (SendScheduledReminder i ty')"
proof -
  obtain x tr' where res: "sendScheduledReminder_try e b ty io tr = (x, tr')" by force
  then have "count_list tr' (SendScheduledReminder i ty') = count_list tr (SendScheduledReminder i ty')"
    using sendScheduledReminder_try_marker [of e b ty io tr i ty'] by simp
  then show ?thesis
    using res by (simp add: sendScheduledReminder_def split: sum.split thrown.split)
qed

lemma navigate_marker:
  "count_list (navigate io b tr) (SendScheduledReminder i ty) = count_list tr (SendScheduledReminder i ty)"
  by (auto simp: navigate_def Let_def split: option.splits)

lemma sendScheduledReminder_try_nullish:
  "fst (sendScheduledReminder_try e b ty io tr) = Inl Nullish
   \<Longrightarrow> \<exists>i. sendPushNotification e i = Some Nullish"
  by (auto simp: sendScheduledReminder_try_def Let_def
        split: option.splits sum.splits thrown.splits if_splits)

lemma sendScheduledReminder_returns:
  assumes "\<And>i. sendPushNotification e i \<noteq> Some Nullish"
  shows "\<exists>r tr'. sendScheduledReminder e b ty io tr = (Inr r, tr')"
proof -
  obtain x tr' where res: "sendScheduledReminder_try e b ty io tr = (x, tr')" by force
  have "x \<noteq> Inl Nullish"
    using sendScheduledReminder_try_nullish [of e b ty io tr] res assms by auto
  then show ?thesis
    using res by (cases x) (auto simp: sendScheduledReminder_def split: thrown.splits)
qed


lemma reminder_booking_other:
  assumes "bid b \<noteq> i"
  shows "findById i (fst (reminder_booking k e io b w)) = findById i (fst w)
   \<and> count_list (snd (reminder_booking k e io b w)) (SendScheduledReminder i ty)
       = count_list (snd w) (SendScheduledReminder i ty)"
proof -
  let ?start = "snd w @ [SendScheduledReminder (bid b) (typeName k)]"
  obtain x tr where res: "sendScheduledReminder e b (typeName k) io ?start = (x, tr)" by force
  have "count_list tr (SendScheduledReminder i ty) = count_list ?start (SendScheduledReminder i ty)"
    using sendScheduledReminder_marker [of e b "typeName k" io ?start i ty] res by simp
  then have c: "count_list tr (SendScheduledReminder i ty) = count_list (snd w) (SendScheduledReminder i ty)"
    using assms by simp
  show ?thesis
    using assms c
    by (simp add: reminder_booking_def res updateOne_def findById_updateFirst_id bid_setFlag
          navigate_marker option.map_ident Let_def
          split: sum.split option.split del: setFlag.simps)
qed

lemma reminder_booking_same_count:
  "count_list (snd (reminder_booking k e io b w)) (SendScheduledReminder (bid b) (typeName k))
     = count_list (snd w) (SendScheduledReminder (bid b) (typeName k)) + 1"
proof -
  let ?start = "snd w @ [SendScheduledReminder (bid b) (typeName k)]"
  let ?m = "SendScheduledReminder (bid b) (typeName k)"
  obtain x tr where res: "sendScheduledReminder e b (typeName k) io ?start = (x, tr)" by force
  have "count_list tr ?m = count_list ?start ?m"
    using sendScheduledReminder_marker [of e b "typeName k" io ?start "bid b" "typeName k"] res
    by simp
  then have c: "count_list tr ?m = count_list (snd w) ?m + 1" by simp
  have n: "count_list (if k = Min15 then navigate io b tr else tr) ?m = count_list tr ?m"
    by (simp add: navigate_marker)
  show ?thesis
  proof (cases x)
    case (Inl err)
    then show ?thesis using c by (simp add: reminder_booking_def res)
  next
    case (Inr r)
    show ?thesis
    proof (cases "updateOne e (bid b) (\<lambda>d. True) (setFlag k) (fst w)")
      case (Inl err)
      then show ?thesis
        using c n Inr
        by (simp add: reminder_booking_def res Let_def del: setFlag.simps split del: if_split)
    next
      case updated: (Inr p)
      then show ?thesis
        using c n Inr
        by (cases p)
           (simp add: reminder_booking_def res Let_def del: setFlag.simps split del: if_split)
    qed
  qed
qed



lemma filter_other_ids:
  fixes docs :: "booking list"
  assumes "distinct (map bid docs)" and "d \<in> set docs" and "\<not> q d" and "x \<in> set (filter q docs)"
  shows "bid x \<noteq> bid d"
proof
  assume same: "bid x = bid d"
  have "x \<in> set docs" using assms(4) by simp
  with assms(1) have "findById (bid x) docs = Some x" by (rule findById_member)
  then have "findById (bid d) docs = Some x" unfolding same .
  moreover have "findById (bid d) docs = Some d" using assms(1,2) by (rule findById_member)
  ultimately have "x = d" by simp
  then show False using assms(3,4) by simp
qed


lemma reminder_job_count:
  assumes "distinct (map bid (fst w))" and "d \<in> set (fst w)"
  shows "count_list (snd (reminder_job k e io now w)) (SendScheduledReminder (bid d) (typeName k))
           = count_list (snd w) (SendScheduledReminder (bid d) (typeName k))
             + (if findRejects e = None \<and> reminder_query k now d then 1 else 0)"
proof (cases "findRejects e")
  case (Some err)
  then show ?thesis by (simp add: reminder_job_def find_docs_def)
next
  case None
  let ?bs = "filter (reminder_query k now) (fst w)"
  let ?start = "(fst w, snd w @ [ConsoleLog (cronTag k @ '' Sending reminders to'') (length ?bs)])"
  let ?g = "\<lambda>w. count_list (snd w) (SendScheduledReminder (bid d) (typeName k))"
  have run: "reminder_job k e io now w
               = (if length ?bs = 0 then w else for_each (reminder_booking k e io) ?bs ?start)"
    using None by (simp add: reminder_job_def find_docs_def)
  show ?thesis
  proof (cases "reminder_query k now d")
    case True
    then have mem: "d \<in> set ?bs" using assms(2) by simp
    have ne: "length ?bs \<noteq> 0" using length_pos_if_in_set [OF mem] by simp
    have dist: "distinct (map bid ?bs)" using assms(1) by (rule distinct_map_filter)
    have "?g (for_each (reminder_booking k e io) ?bs ?start) = (\<lambda>n. n + 1) (?g ?start)"
    proof (rule for_each_one [where I = "\<lambda>w. True" and b = d])
      show "distinct (map bid ?bs)" by (rule dist)
      show "d \<in> set ?bs" by (rule mem)
      show "\<And>x w. True \<Longrightarrow> bid x \<noteq> bid d \<Longrightarrow> ?g (reminder_booking k e io x w) = ?g w"
        by (simp add: reminder_booking_other)
      show "\<And>w. True \<Longrightarrow> ?g (reminder_booking k e io d w) = (\<lambda>n. n + 1) (?g w)"
        by (simp add: reminder_booking_same_count)
    qed simp_all
    then show ?thesis using run ne None True by simp
  next
    case False
    show ?thesis
    proof (cases "length ?bs = 0")
      case True
      then show ?thesis using run False by simp
    next
      case nonempty: False
      have "?g (for_each (reminder_booking k e io) ?bs ?start) = ?g ?start"
      proof (rule for_each_other [where I = "\<lambda>w. True"])
        show "\<And>x w. True \<Longrightarrow> x \<in> set ?bs \<Longrightarrow> ?g (reminder_booking k e io x w) = ?g w"
          using filter_other_ids [where q = "reminder_query k now", OF assms(1,2) False]
          by (simp add: reminder_booking_other)
      qed simp_all
      then show ?thesis using run nonempty False by simp
    qed
  qed
qed




subsection \<open>What one tick does\<close>

lemma activate_grows:
  "count_list (snd w) x \<le> count_list (snd (activateScheduledBookings e io now w)) x"
proof (cases "find_docs e (activate_query now) (fst w)")
  case (Inl err)
  then show ?thesis by (simp add: activateScheduledBookings_def)
next
  case (Inr bs)
  let ?start = "(fst w, snd w @ [ConsoleLog ''[CRON:ACTIVATE] Found'' (length bs)])"
  have "count_list (snd ?start) x \<le> count_list (snd (for_each (activate_booking e io) bs ?start)) x"
    by (rule for_each_mono) (rule activate_booking_grows)
  then show ?thesis using Inr by (simp add: activateScheduledBookings_def)
qed

lemma reminder_job_grows:
  "count_list (snd w) x \<le> count_list (snd (reminder_job k e io now w)) x"
proof (cases "find_docs e (reminder_query k now) (fst w)")
  case (Inl err)
  then show ?thesis by (simp add: reminder_job_def)
next
  case (Inr bs)
  let ?start = "(fst w, snd w @ [ConsoleLog (cronTag k @ '' Sending reminders to'') (length bs)])"
  have "count_list (snd ?start) x \<le> count_list (snd (for_each (reminder_booking k e io) bs ?start)) x"
    by (rule for_each_mono) (rule reminder_booking_grows)
  then show ?thesis using Inr by (simp add: reminder_job_def)
qed

lemma noShow_grows:
  "count_list (snd w) x \<le> count_list (snd (handleNoShowSafety e io now w)) x"
proof (cases "find_docs e (noShow_query now) (fst w)")
  case (Inl err)
  then show ?thesis by (simp add: handleNoShowSafety_def)
next
  case (Inr bs)
  let ?start = "(fst w, snd w @ [ConsoleLog ''[CRON:NOSHOW] Detected'' (length bs)])"
  have "count_list (snd ?start) x \<le> count_list (snd (for_each (noShow_booking e io now) bs ?start)) x"
    by (rule for_each_mono) (rule noShow_booking_grows)
  then show ?thesis using Inr by (simp add: handleNoShowSafety_def)
qed

lemma run_tick_grows: "recoveries i w \<le> recoveries i (run_tick t w)"
  by (cases "tick_job t")
     (simp_all add: run_tick_def recoveries_def activate_grows reminder_job_grows noShow_grows
        sendReminders24h_eq sendReminders1h_eq sendReminders15min_eq)

lemma flagOf_trace: "flagOf k i (docs, tr) = flagOf k i (docs, tr')"
  by (simp add: flagOf_def)

lemma activate_flag: "flagOf k i (activateScheduledBookings e io now w) = flagOf k i w"
proof (cases "find_docs e (activate_query now) (fst w)")
  case (Inl err)
  then show ?thesis by (simp add: activateScheduledBookings_def flagOf_def)
next
  case (Inr bs)
  let ?start = "(fst w, snd w @ [ConsoleLog ''[CRON:ACTIVATE] Found'' (length bs)])"
  have "flagOf k i (for_each (activate_booking e io) bs ?start) = flagOf k i ?start"
    by (rule for_each_other [where I = "\<lambda>w. True"]) (simp_all add: activate_booking_flag)
  then show ?thesis using Inr by (simp add: activateScheduledBookings_def flagOf_def)
qed

lemma reminder_job_flag:
  assumes "flagOf k i w"
  shows "flagOf k i (reminder_job k' e io now w)"
proof (cases "find_docs e (reminder_query k' now) (fst w)")
  case (Inl err)
  then show ?thesis using assms by (simp add: reminder_job_def flagOf_def)
next
  case (Inr bs)
  let ?start = "(fst w, snd w @ [ConsoleLog (cronTag k' @ '' Sending reminders to'') (length bs)])"
  have "flagOf k i ?start" using assms by (simp add: flagOf_def)
  then have "flagOf k i (for_each (reminder_booking k' e io) bs ?start)"
    by (rule for_each_keeps) (rule reminder_booking_flag)
  then show ?thesis using Inr assms by (simp add: reminder_job_def)
qed

lemma noShow_potential:
  "of_bool (flagOf k i w) + recoveries i w
     \<le> of_bool (flagOf k i (handleNoShowSafety e io now w))
        + recoveries i (handleNoShowSafety e io now w)"
proof (cases "find_docs e (noShow_query now) (fst w)")
  case (Inl err)
  then show ?thesis by (simp add: handleNoShowSafety_def flagOf_def recoveries_def)
next
  case (Inr bs)
  let ?start = "(fst w, snd w @ [ConsoleLog ''[CRON:NOSHOW] Detected'' (length bs)])"
  let ?m = "\<lambda>w. of_bool (flagOf k i w) + recoveries i w"
  have "?m ?start \<le> ?m (for_each (noShow_booking e io now) bs ?start)"
    by (rule for_each_mono) (rule noShow_booking_potential)
  moreover have "?m ?start = ?m w" by (simp add: flagOf_def recoveries_def)
  ultimately show ?thesis using Inr by (simp add: handleNoShowSafety_def)
qed

lemma run_tick_flag:
  "tick_job t \<noteq> NoShowSafety \<Longrightarrow> flagOf k i w \<Longrightarrow> flagOf k i (run_tick t w)"
  by (cases "tick_job t")
     (simp_all add: run_tick_def activate_flag reminder_job_flag
        sendReminders24h_eq sendReminders1h_eq sendReminders15min_eq)

lemma run_tick_potential:
  "of_bool (flagOf k i w) + recoveries i w
     \<le> of_bool (flagOf k i (run_tick t w)) + recoveries i (run_tick t w)"
proof (cases "tick_job t = NoShowSafety")
  case True
  then show ?thesis using noShow_potential by (simp add: run_tick_def)
next
  case False
  have "flagOf k i w \<Longrightarrow> flagOf k i (run_tick t w)" using False by (rule run_tick_flag)
  then show ?thesis using run_tick_grows [of i w t] by (auto simp: of_bool_def)
qed

lemma history_head: "\<exists>rest. history ts w = w # rest"
  by (cases ts) simp_all

lemma history_rises:
  "rises (map (flagOf k i) (history ts w)) + of_bool (flagOf k i w) + recoveries i w
     \<le> 1 + recoveries i (last (history ts w))"
proof (induction ts arbitrary: w)
  case Nil
  then show ?case by simp
next
  case (Cons t ts)
  obtain rest where rest: "history ts (run_tick t w) = run_tick t w # rest"
    using history_head by blast
  have ih: "rises (map (flagOf k i) (history ts (run_tick t w)))
              + of_bool (flagOf k i (run_tick t w)) + recoveries i (run_tick t w)
            \<le> 1 + recoveries i (last (history ts (run_tick t w)))"
    by (rule Cons.IH)
  have step: "rises (map (flagOf k i) (history (t # ts) w))
                = (if \<not> flagOf k i w \<and> flagOf k i (run_tick t w) then 1 else 0)
                  + rises (map (flagOf k i) (history ts (run_tick t w)))"
    using rest by simp
  have final: "last (history (t # ts) w) = last (history ts (run_tick t w))"
    using rest by simp
  show ?case
    using ih run_tick_potential [of k i w t] run_tick_grows [of i w t]
    unfolding step final by (auto simp: of_bool_def split: if_splits)
qed

section \<open>The claims\<close>

subsection \<open>No-show recovery\<close>

text \<open>
  Claim C1. In a collection with unique ids, take a booking with status
  \<^verbatim>\<open>accepted\<close>, \<^verbatim>\<open>scheduledAt\<close> at most now - 30 min, \<^verbatim>\<open>noShowAt\<close> null and
  a technician assigned. After a pass of the no-show job in which the query, the update of
  this booking and the matching call for it succeed, the booking is stored with
  \<^verbatim>\<open>technicianId\<close> null, status \<^verbatim>\<open>requested\<close>, the three reminder flags false,
  \<^verbatim>\<open>assignedAt\<close> null and \<^verbatim>\<open>noShowAt\<close> the time of the pass, and the pass has
  called the matching service and the customer notification exactly once each for it.
\<close>

theorem noShow_recovery:
  assumes "distinct (map bid docs)"
    and "findRejects e = None"
    and "updateRejects e (bid d) = None"
    and "matchAndBroadcastBooking e (bid d) = Inr c"
    and "d \<in> set docs"
    and "status d = ''accepted''"
    and "scheduledAt d = Some t"
    and "t \<le> now - 30 * 60 * 1000"
    and "noShowAt d = None"
    and "technicianId d \<noteq> None"
  shows "findById (bid d) (fst (handleNoShowSafety e io now (docs, tr)))
           = Some (d\<lparr>technicianId := None, status := ''requested'', noShowAt := Some now,
                     reminders := \<lparr>h24 = False, h1 = False, min15 = False\<rparr>,
                     assignedAt := None\<rparr>)
         \<and> count_list (snd (handleNoShowSafety e io now (docs, tr))) (MatchAndBroadcast (bid d))
           = count_list tr (MatchAndBroadcast (bid d)) + 1
         \<and> count_list (snd (handleNoShowSafety e io now (docs, tr))) (NotifyCustomerOfRebroadcast (bid d))
           = count_list tr (NotifyCustomerOfRebroadcast (bid d)) + 1"
proof -
  let ?bs = "filter (noShow_query now) docs"
  let ?start = "(docs, tr @ [ConsoleLog ''[CRON:NOSHOW] Detected'' (length ?bs)])"
  let ?g = "\<lambda>w. (findById (bid d) (fst w), count_list (snd w) (MatchAndBroadcast (bid d)),
                   count_list (snd w) (NotifyCustomerOfRebroadcast (bid d)))"
  let ?h = "\<lambda>(x, m::nat, n::nat).
              (map_option (recoverIfGuard now) x,
               m + (if guardHolds x then 1 else 0), n + (if guardHolds x then 1 else 0))"
  have q: "noShow_query now d"
    using assms(6-10) by (simp add: noShow_query_def date_lte_def)
  then have mem: "d \<in> set ?bs" using assms(5) by simp
  have ne: "length ?bs \<noteq> 0" using length_pos_if_in_set [OF mem] by simp
  have dist: "distinct (map bid ?bs)" using assms(1) by (rule distinct_map_filter)
  have run: "handleNoShowSafety e io now (docs, tr)
               = for_each (noShow_booking e io now) ?bs ?start"
    using assms(2) ne by (simp add: handleNoShowSafety_def find_docs_def)
  have "?g (for_each (noShow_booking e io now) ?bs ?start) = ?h (?g ?start)"
  proof (rule for_each_one [where I = "\<lambda>w. distinct (map bid (fst w))" and b = d])
    show "distinct (map bid (fst ?start))" using assms(1) by simp
    show "\<And>x w. distinct (map bid (fst w)) \<Longrightarrow> distinct (map bid (fst (noShow_booking e io now x w)))"
      by (simp add: noShow_booking_ids)
    show "distinct (map bid ?bs)" by (rule dist)
    show "d \<in> set ?bs" by (rule mem)
    show "\<And>x w. distinct (map bid (fst w)) \<Longrightarrow> bid x \<noteq> bid d
            \<Longrightarrow> ?g (noShow_booking e io now x w) = ?g w"
      by (simp add: noShow_booking_other)
    show "\<And>w. distinct (map bid (fst w)) \<Longrightarrow> ?g (noShow_booking e io now d w) = ?h (?g w)"
      using assms(3,4) by (simp add: noShow_booking_same)
  qed
  moreover have "findById (bid d) docs = Some d"
    using assms(1,5) by (rule findById_member)
  moreover have "recover now d = d\<lparr>technicianId := None, status := ''requested'', noShowAt := Some now,
                     reminders := \<lparr>h24 = False, h1 = False, min15 = False\<rparr>,
                     assignedAt := None\<rparr>"
    by (simp add: recover_def)
  ultimately show ?thesis
    using run assms(6,9) by (simp add: recoverIfGuard_def guardHolds_def)
qed

theorem noShow_recovery_witness:
  "findById 7 (fst (handleNoShowSafety quietEnv True 1860000 ([exampleBooking 7 ''accepted'' 0], [])))
     = Some \<lparr>bid = 7, status = ''requested'', scheduledAt = Some 0, technicianId = None,
              customerId = Some 901, reminders = \<lparr>h24 = False, h1 = False, min15 = False\<rparr>,
              noShowAt = Some 1860000, assignedAt = None, address = None, coordinates = None\<rparr>
   \<and> count_list (snd (handleNoShowSafety quietEnv True 1860000 ([exampleBooking 7 ''accepted'' 0], [])))
         (MatchAndBroadcast 7) = 1
   \<and> count_list (snd (handleNoShowSafety quietEnv True 1860000 ([exampleBooking 7 ''accepted'' 0], [])))
         (NotifyCustomerOfRebroadcast 7) = 1"
  using noShow_recovery
    [where docs = "[exampleBooking 7 ''accepted'' 0]" and e = quietEnv
       and d = "exampleBooking 7 ''accepted'' 0" and c = "Some 3" and t = 0
       and now = 1860000 and io = True and tr = "[]"]
  by (simp add: quietEnv_def exampleBooking_def)

subsection \<open>Activation\<close>

text \<open>
  Claim C2. The Activation job selects a booking exactly when its status is
  \<^verbatim>\<open>scheduled\<close> and \<^verbatim>\<open>scheduledAt\<close> is at most now + 15 min (900000 ms), with
  no lower bound. In a collection with unique ids and a tick whose query succeeds: a
  selected booking whose update does not fail is stored with status \<^verbatim>\<open>requested\<close>
  and the matching service is called exactly once for it; a booking that is not selected
  is left as it is and the matching service is not called for it.
\<close>

theorem activation_tick:
  assumes "distinct (map bid docs)"
    and "findRejects e = None"
    and "d \<in> set docs"
  shows "(activate_query now d \<longleftrightarrow>
            status d = ''scheduled'' \<and> (\<exists>t. scheduledAt d = Some t \<and> t \<le> now + 900000))
         \<and> (activate_query now d \<and> updateRejects e (bid d) = None \<longrightarrow>
              findById (bid d) (fst (activateScheduledBookings e io now (docs, tr)))
                = Some (d\<lparr>status := ''requested''\<rparr>)
              \<and> count_list (snd (activateScheduledBookings e io now (docs, tr)))
                    (MatchAndBroadcast (bid d))
                = count_list tr (MatchAndBroadcast (bid d)) + 1)
         \<and> (\<not> activate_query now d \<longrightarrow>
              findById (bid d) (fst (activateScheduledBookings e io now (docs, tr))) = Some d
              \<and> count_list (snd (activateScheduledBookings e io now (docs, tr)))
                    (MatchAndBroadcast (bid d))
                = count_list tr (MatchAndBroadcast (bid d)))"
proof -
  let ?bs = "filter (activate_query now) docs"
  let ?start = "(docs, tr @ [ConsoleLog ''[CRON:ACTIVATE] Found'' (length ?bs)])"
  let ?g = "\<lambda>w. (findById (bid d) (fst w), count_list (snd w) (MatchAndBroadcast (bid d)))"
  let ?h = "\<lambda>(x, n::nat). (map_option scheduledToRequested x, n + 1)"
  have look: "findById (bid d) docs = Some d"
    using assms(1,3) by (rule findById_member)
  have run: "activateScheduledBookings e io now (docs, tr)
               = (if length ?bs = 0 then (docs, tr) else for_each (activate_booking e io) ?bs ?start)"
    using assms(2) by (simp add: activateScheduledBookings_def find_docs_def)
  have query: "activate_query now d \<longleftrightarrow>
            status d = ''scheduled'' \<and> (\<exists>t. scheduledAt d = Some t \<and> t \<le> now + 900000)"
    by (auto simp: activate_query_def date_lte_def split: option.splits)
  have selected: "?g (activateScheduledBookings e io now (docs, tr))
                    = (Some (d\<lparr>status := ''requested''\<rparr>), count_list tr (MatchAndBroadcast (bid d)) + 1)"
    if q: "activate_query now d" and ok: "updateRejects e (bid d) = None"
  proof -
    have mem: "d \<in> set ?bs" using q assms(3) by simp
    have ne: "length ?bs \<noteq> 0" using length_pos_if_in_set [OF mem] by simp
    have dist: "distinct (map bid ?bs)" using assms(1) by (rule distinct_map_filter)
    have "?g (for_each (activate_booking e io) ?bs ?start) = ?h (?g ?start)"
    proof (rule for_each_one [where I = "\<lambda>w. True" and b = d])
      show "distinct (map bid ?bs)" by (rule dist)
      show "d \<in> set ?bs" by (rule mem)
      show "\<And>x w. True \<Longrightarrow> bid x \<noteq> bid d \<Longrightarrow> ?g (activate_booking e io x w) = ?g w"
        by (simp add: activate_booking_other)
      show "\<And>w. True \<Longrightarrow> ?g (activate_booking e io d w) = ?h (?g w)"
        using ok by (simp add: activate_booking_same)
    qed simp_all
    moreover have "status d = ''scheduled''" using q by (simp add: activate_query_def)
    ultimately show ?thesis
      using run ne look by (simp add: scheduledToRequested_def)
  qed
  have skipped: "?g (activateScheduledBookings e io now (docs, tr))
                    = (Some d, count_list tr (MatchAndBroadcast (bid d)))"
    if nq: "\<not> activate_query now d"
  proof (cases "length ?bs = 0")
    case True
    then show ?thesis using run look by simp
  next
    case False
    have other: "bid x \<noteq> bid d" if "x \<in> set ?bs" for x
    proof
      assume same: "bid x = bid d"
      have "x \<in> set docs" using that by simp
      with assms(1) have "findById (bid x) docs = Some x" by (rule findById_member)
      then have "findById (bid d) docs = Some x" unfolding same .
      with look have "x = d" by simp
      then show False using that nq by simp
    qed
    have "?g (for_each (activate_booking e io) ?bs ?start) = ?g ?start"
    proof (rule for_each_other [where I = "\<lambda>w. True"])
      show "\<And>x w. True \<Longrightarrow> x \<in> set ?bs \<Longrightarrow> ?g (activate_booking e io x w) = ?g w"
        using other by (simp add: activate_booking_other)
    qed simp_all
    then show ?thesis using run False look by simp
  qed
  show ?thesis using query selected skipped by simp
qed

theorem activation_tick_witness:
  "findById 7 (fst (activateScheduledBookings quietEnv True 0
        ([exampleBooking 7 ''scheduled'' (- 60000), exampleBooking 8 ''scheduled'' 900001], [])))
     = Some ((exampleBooking 7 ''scheduled'' (- 60000))\<lparr>status := ''requested''\<rparr>)
   \<and> count_list (snd (activateScheduledBookings quietEnv True 0
        ([exampleBooking 7 ''scheduled'' (- 60000), exampleBooking 8 ''scheduled'' 900001], [])))
      (MatchAndBroadcast 7) = 1
   \<and> findById 8 (fst (activateScheduledBookings quietEnv True 0
        ([exampleBooking 7 ''scheduled'' (- 60000), exampleBooking 8 ''scheduled'' 900001], [])))
     = Some (exampleBooking 8 ''scheduled'' 900001)
   \<and> count_list (snd (activateScheduledBookings quietEnv True 0
        ([exampleBooking 7 ''scheduled'' (- 60000), exampleBooking 8 ''scheduled'' 900001], [])))
      (MatchAndBroadcast 8) = 0"
  using
    activation_tick
      [where docs = "[exampleBooking 7 ''scheduled'' (- 60000), exampleBooking 8 ''scheduled'' 900001]"
         and e = quietEnv and d = "exampleBooking 7 ''scheduled'' (- 60000)" and now = 0
         and io = True and tr = "[]"]
    activation_tick
      [where docs = "[exampleBooking 7 ''scheduled'' (- 60000), exampleBooking 8 ''scheduled'' 900001]"
         and e = quietEnv and d = "exampleBooking 8 ''scheduled'' 900001" and now = 0
         and io = True and tr = "[]"]
  by (simp add: quietEnv_def exampleBooking_def activate_query_def date_lte_def)

text \<open>
  Claim C7. The status flip of the Activation job applies only while the stored status is
  still \<^verbatim>\<open>scheduled\<close>: when two scheduler instances apply it to the same booking one
  after the other, the first matches one document and takes it from scheduled to
  requested, and the second matches none and leaves the collection as it is.
\<close>

theorem activation_compare_and_set:
  assumes "distinct (map bid docs)"
    and "findById i docs = Some d"
    and "status d = ''scheduled''"
    and "updateRejects e1 i = None"
    and "updateRejects e2 i = None"
  shows "\<exists>docs1. activate_update e1 i docs = Inr (docs1, 1)
           \<and> findById i docs1 = Some (d\<lparr>status := ''requested''\<rparr>)
           \<and> activate_update e2 i docs1 = Inr (docs1, 0)"
proof -
  let ?q = "\<lambda>d. status d = ''scheduled''"
  let ?f = "\<lambda>d. d\<lparr>status := ''requested''\<rparr>"
  let ?docs1 = "updateFirst (\<lambda>d. bid d = i \<and> ?q d) ?f docs"
  have m: "find (\<lambda>d. bid d = i \<and> ?q d) docs = Some d"
    using assms(2,3) by (rule find_some_first)
  have first: "activate_update e1 i docs = Inr (?docs1, 1)"
    using assms(4) m by (simp add: activate_update_def updateOne_def)
  have look: "findById i ?docs1 = Some (?f d)"
    using assms(2,3) by (simp add: findById_updateFirst)
  have d1: "distinct (map bid ?docs1)"
    using assms(1) by (simp add: map_bid_updateFirst)
  have none: "find (\<lambda>d. bid d = i \<and> ?q d) ?docs1 = None"
    using d1 look by (rule find_none_distinct) simp
  have second: "activate_update e2 i ?docs1 = Inr (?docs1, 0)"
    using assms(5) none by (simp add: activate_update_def updateOne_def updateFirst_none)
  show ?thesis using first look second by blast
qed

theorem activation_compare_and_set_witness:
  "\<exists>docs1.
     activate_update quietEnv 7 [exampleBooking 7 ''scheduled'' 600000] = Inr (docs1, 1)
     \<and> findById 7 docs1 = Some ((exampleBooking 7 ''scheduled'' 600000)\<lparr>status := ''requested''\<rparr>)
     \<and> activate_update quietEnv 7 docs1 = Inr (docs1, 0)"
  using activation_compare_and_set
    [of "[exampleBooking 7 ''scheduled'' 600000]" 7 "exampleBooking 7 ''scheduled'' 600000"
        quietEnv quietEnv]
  by (simp add: findById_def exampleBooking_def quietEnv_def)

text \<open>
  Claim C9. The loop body of the Activation job calls the matching service whether or not
  its status flip matched a document: when no document with the booking's id is still
  \<^verbatim>\<open>scheduled\<close> the flip matches nothing, the collection stays as it is, and the
  matching service is called all the same. Two instances that both got the booking from
  their query therefore broadcast it twice.
\<close>

theorem activation_broadcast_unguarded:
  assumes "updateRejects e (bid b) = None"
    and "updateRejects e' (bid b) = None"
  shows "(find (\<lambda>d. bid d = bid b \<and> status d = ''scheduled'') (fst w) = None \<longrightarrow>
            activate_update e (bid b) (fst w) = Inr (fst w, 0)
            \<and> fst (activate_booking e io b w) = fst w
            \<and> count_list (snd (activate_booking e io b w)) (MatchAndBroadcast (bid b))
                = count_list (snd w) (MatchAndBroadcast (bid b)) + 1)
         \<and> count_list (snd (activate_booking e' io' b (activate_booking e io b w)))
                (MatchAndBroadcast (bid b))
             = count_list (snd w) (MatchAndBroadcast (bid b)) + 2"
proof -
  have one: "count_list (snd (activate_booking x y b v)) (MatchAndBroadcast (bid b))
               = count_list (snd v) (MatchAndBroadcast (bid b)) + 1"
    if "updateRejects x (bid b) = None" for x y v
    using that by (simp add: activate_booking_same)
  have miss: "activate_update e (bid b) (fst w) = Inr (fst w, 0)
            \<and> fst (activate_booking e io b w) = fst w"
    if "find (\<lambda>d. bid d = bid b \<and> status d = ''scheduled'') (fst w) = None"
    using that assms(1)
    by (simp add: activate_booking_def activate_update_def updateOne_def updateFirst_none
          split: sum.split)
  show ?thesis using miss one [OF assms(1)] one [OF assms(2)] by simp
qed

theorem activation_broadcast_unguarded_witness:
  "activate_update quietEnv 7 [exampleBooking 7 ''requested'' 600000]
     = Inr ([exampleBooking 7 ''requested'' 600000], 0)
   \<and> fst (activate_booking quietEnv True (exampleBooking 7 ''scheduled'' 600000)
            ([exampleBooking 7 ''requested'' 600000], []))
     = [exampleBooking 7 ''requested'' 600000]
   \<and> count_list (snd (activate_booking quietEnv True (exampleBooking 7 ''scheduled'' 600000)
            ([exampleBooking 7 ''requested'' 600000], []))) (MatchAndBroadcast 7) = 1
   \<and> count_list (snd (activate_booking quietEnv True (exampleBooking 7 ''scheduled'' 600000)
          (activate_booking quietEnv True (exampleBooking 7 ''scheduled'' 600000)
            ([exampleBooking 7 ''requested'' 600000], [])))) (MatchAndBroadcast 7) = 2"
  using activation_broadcast_unguarded
    [where e = quietEnv and e' = quietEnv and b = "exampleBooking 7 ''scheduled'' 600000"
       and w = "([exampleBooking 7 ''requested'' 600000], [])" and io = True and io' = True]
  by (simp add: quietEnv_def exampleBooking_def)

subsection \<open>Reminders\<close>

text \<open>
  Claim C3. A reminder job never selects a booking whose flag is already true; a tick
  after which a flag that was true is false is a tick of the no-show job that recovered
  that booking; and along any sequence of ticks of the five jobs a booking's flag goes from
  false to true at most once more often than the booking is recovered, so at most once
  while it is not recovered.
\<close>

theorem reminder_flag_rises_once:
  "(find_docs e (reminder_query k now) docs = Inr bs \<longrightarrow> (\<forall>b \<in> set bs. \<not> flag k b))
   \<and> (flagOf k i w \<and> \<not> flagOf k i (run_tick t w)
        \<longrightarrow> tick_job t = NoShowSafety \<and> recoveries i w < recoveries i (run_tick t w))
   \<and> rises (map (flagOf k i) (history ts w)) + recoveries i w
        \<le> 1 + recoveries i (last (history ts w))
   \<and> (recoveries i (last (history ts w)) = recoveries i w
        \<longrightarrow> rises (map (flagOf k i) (history ts w)) \<le> 1)"
proof -
  have a: "find_docs e (reminder_query k now) docs = Inr bs \<longrightarrow> (\<forall>b \<in> set bs. \<not> flag k b)"
    by (auto simp: find_docs_def reminder_query_def split: option.splits)
  have b: "flagOf k i w \<and> \<not> flagOf k i (run_tick t w)
        \<longrightarrow> tick_job t = NoShowSafety \<and> recoveries i w < recoveries i (run_tick t w)"
    using run_tick_flag [of t k i w] run_tick_potential [of k i w t]
    by (auto simp: of_bool_def)
  have c: "rises (map (flagOf k i) (history ts w)) + recoveries i w
        \<le> 1 + recoveries i (last (history ts w))"
    using history_rises [of k i ts w] by simp
  from a b c show ?thesis by auto
qed

theorem reminder_flag_rises_once_witness:
  "find_docs quietEnv (reminder_query H24 0) [exampleBooking 7 ''accepted'' 86400000]
     = Inr [exampleBooking 7 ''accepted'' 86400000]
   \<and> \<not> flag H24 (exampleBooking 7 ''accepted'' 86400000)
   \<and> flagOf H24 7
         ([(exampleBooking 7 ''accepted'' 0)\<lparr>reminders := \<lparr>h24 = True, h1 = True, min15 = True\<rparr>\<rparr>], [])
   \<and> \<not> flagOf H24 7 (run_tick (exampleTick NoShowSafety 1860000)
         ([(exampleBooking 7 ''accepted'' 0)\<lparr>reminders := \<lparr>h24 = True, h1 = True, min15 = True\<rparr>\<rparr>], []))
   \<and> recoveries 7
         ([(exampleBooking 7 ''accepted'' 0)\<lparr>reminders := \<lparr>h24 = True, h1 = True, min15 = True\<rparr>\<rparr>], [])
       < recoveries 7 (run_tick (exampleTick NoShowSafety 1860000)
         ([(exampleBooking 7 ''accepted'' 0)\<lparr>reminders := \<lparr>h24 = True, h1 = True, min15 = True\<rparr>\<rparr>], []))
   \<and> recoveries 7 (last (history [exampleTick Reminders24h 0, exampleTick Reminders24h 900000]
         ([exampleBooking 7 ''accepted'' 86400000], [])))
       = recoveries 7 ([exampleBooking 7 ''accepted'' 86400000], [])
   \<and> map (flagOf H24 7) (history [exampleTick Reminders24h 0, exampleTick Reminders24h 900000]
         ([exampleBooking 7 ''accepted'' 86400000], [])) = [False, True, True]
   \<and> rises (map (flagOf H24 7) (history [exampleTick Reminders24h 0, exampleTick Reminders24h 900000]
         ([exampleBooking 7 ''accepted'' 86400000], []))) \<le> 1"
  using
    reminder_flag_rises_once
      [where e = quietEnv and k = H24 and now = 0
         and docs = "[exampleBooking 7 ''accepted'' 86400000]"
         and bs = "[exampleBooking 7 ''accepted'' 86400000]" and i = 7
         and w = "([(exampleBooking 7 ''accepted'' 0)
                      \<lparr>reminders := \<lparr>h24 = True, h1 = True, min15 = True\<rparr>\<rparr>], [])"
         and t = "exampleTick NoShowSafety 1860000" and ts = "[]"]
    reminder_flag_rises_once
      [where e = quietEnv and k = H24 and now = 0
         and docs = "[exampleBooking 7 ''accepted'' 86400000]"
         and bs = "[exampleBooking 7 ''accepted'' 86400000]" and i = 7
         and w = "([exampleBooking 7 ''accepted'' 86400000], [])"
         and t = "exampleTick Reminders24h 0"
         and ts = "[exampleTick Reminders24h 0, exampleTick Reminders24h 900000]"]
  by (simp add: run_tick_def exampleTick_def quietEnv_def exampleBooking_def
        sendReminders24h_eq reminder_job_def reminder_booking_def reminder_query_def find_docs_def
        date_lte_def date_gte_def updateOne_def
        sendScheduledReminder_def sendScheduledReminder_try_def techNameOf_def techPhoneOf_def
        scheduledDateOf_def messages_def truthy_def
        handleNoShowSafety_def noShow_booking_def noShow_query_def findOneAndUpdate_def
        recover_def notifyCustomerOfRebroadcast_def flagOf_def findById_def recoveries_def)

text \<open>
  Claim C4. In a collection with unique ids and a tick whose query succeeds, each
  reminder job hands a stored booking to the reminder composer, once, exactly when the
  booking's status is \<^verbatim>\<open>accepted\<close>, the job's flag is false and \<^verbatim>\<open>scheduledAt\<close>
  lies in the job's window, both ends included: now + 23 h to now + 25 h (82800000 to
  90000000 ms) for the 24-hour job, now + 55 min to now + 65 min for the 1-hour job, now +
  10 min to now + 20 min for the 15-minute job. For every other booking the job does not
  call the composer.
\<close>

theorem reminder_selection:
  assumes "distinct (map bid docs)"
    and "findRejects e = None"
    and "d \<in> set docs"
  shows "count_list (snd (sendReminders24h e io now (docs, tr))) (SendScheduledReminder (bid d) ''h24'')
           = count_list tr (SendScheduledReminder (bid d) ''h24'')
             + (if status d = ''accepted'' \<and> h24 (reminders d) = False
               \<and> (\<exists>t. scheduledAt d = Some t \<and> now + 82800000 \<le> t \<and> t \<le> now + 90000000)
                then 1 else 0)
         \<and> count_list (snd (sendReminders1h e io now (docs, tr))) (SendScheduledReminder (bid d) ''h1'')
           = count_list tr (SendScheduledReminder (bid d) ''h1'')
             + (if status d = ''accepted'' \<and> h1 (reminders d) = False
               \<and> (\<exists>t. scheduledAt d = Some t \<and> now + 3300000 \<le> t \<and> t \<le> now + 3900000)
                then 1 else 0)
         \<and> count_list (snd (sendReminders15min e io now (docs, tr))) (SendScheduledReminder (bid d) ''min15'')
           = count_list tr (SendScheduledReminder (bid d) ''min15'')
             + (if status d = ''accepted'' \<and> min15 (reminders d) = False
               \<and> (\<exists>t. scheduledAt d = Some t \<and> now + 600000 \<le> t \<and> t \<le> now + 1200000)
                then 1 else 0)"
proof -
  have qH24: "reminder_query H24 now d \<longleftrightarrow>
            status d = ''accepted'' \<and> h24 (reminders d) = False
               \<and> (\<exists>t. scheduledAt d = Some t \<and> now + 82800000 \<le> t \<and> t \<le> now + 90000000)"
    by (auto simp: reminder_query_def date_lte_def date_gte_def split: option.splits)
  have qH1: "reminder_query H1 now d \<longleftrightarrow>
            status d = ''accepted'' \<and> h1 (reminders d) = False
               \<and> (\<exists>t. scheduledAt d = Some t \<and> now + 3300000 \<le> t \<and> t \<le> now + 3900000)"
    by (auto simp: reminder_query_def date_lte_def date_gte_def split: option.splits)
  have qMin15: "reminder_query Min15 now d \<longleftrightarrow>
            status d = ''accepted'' \<and> min15 (reminders d) = False
               \<and> (\<exists>t. scheduledAt d = Some t \<and> now + 600000 \<le> t \<and> t \<le> now + 1200000)"
    by (auto simp: reminder_query_def date_lte_def date_gte_def split: option.splits)
  show ?thesis
    using assms
      reminder_job_count [of "(docs, tr)" d H24 e io now]
      reminder_job_count [of "(docs, tr)" d H1 e io now]
      reminder_job_count [of "(docs, tr)" d Min15 e io now]
    unfolding qH24 qH1 qMin15
    by (simp add: sendReminders24h_eq sendReminders1h_eq sendReminders15min_eq)
qed

theorem reminder_selection_witness:
  "count_list (snd (sendReminders24h quietEnv True 0
        ([exampleBooking 7 ''accepted'' (23 * 60 * 60 * 1000),
          exampleBooking 8 ''accepted'' (25 * 60 * 60 * 1000 + 1000)], [])))
      (SendScheduledReminder 7 ''h24'') = 1
   \<and> count_list (snd (sendReminders24h quietEnv True 0
        ([exampleBooking 7 ''accepted'' (23 * 60 * 60 * 1000),
          exampleBooking 8 ''accepted'' (25 * 60 * 60 * 1000 + 1000)], [])))
      (SendScheduledReminder 8 ''h24'') = 0
   \<and> count_list (snd (sendReminders1h quietEnv True 0
        ([exampleBooking 7 ''accepted'' (23 * 60 * 60 * 1000),
          exampleBooking 8 ''accepted'' (25 * 60 * 60 * 1000 + 1000)], [])))
      (SendScheduledReminder 7 ''h1'') = 0"
  using
    reminder_selection
      [where e = quietEnv and io = True and now = 0 and tr = "[]"
         and docs = "[exampleBooking 7 ''accepted'' (23 * 60 * 60 * 1000),
                      exampleBooking 8 ''accepted'' (25 * 60 * 60 * 1000 + 1000)]"
         and d = "exampleBooking 7 ''accepted'' (23 * 60 * 60 * 1000)"]
    reminder_selection
      [where e = quietEnv and io = True and now = 0 and tr = "[]"
         and docs = "[exampleBooking 7 ''accepted'' (23 * 60 * 60 * 1000),
                      exampleBooking 8 ''accepted'' (25 * 60 * 60 * 1000 + 1000)]"
         and d = "exampleBooking 8 ''accepted'' (25 * 60 * 60 * 1000 + 1000)"]
  by (simp add: quietEnv_def exampleBooking_def)



subsection \<open>The no-show job's guard\<close>

text \<open>
  Claim C5. When the conditional update of the no-show job finds no document with the
  booking's id that is still \<^verbatim>\<open>accepted\<close> with \<^verbatim>\<open>noShowAt\<close> null, the loop body
  changes nothing: the collection is as before and the trace is as before, so nothing is
  logged as an error and neither the matching service nor the customer notification is
  called.
\<close>

theorem noShow_guard_miss_is_silent:
  assumes "updateRejects e (bid b) = None"
    and "find (\<lambda>d. bid d = bid b \<and> status d = ''accepted'' \<and> noShowAt d = None) (fst w) = None"
  shows "noShow_booking e io now b w = w"
  using assms
  by (simp add: noShow_booking_def findOneAndUpdate_def updateFirst_none)

theorem noShow_guard_miss_is_silent_witness:
  "noShow_booking quietEnv True 1860000 (exampleBooking 7 ''accepted'' 0)
       ([exampleBooking 7 ''on_the_way'' 0], [])
     = ([exampleBooking 7 ''on_the_way'' 0], [])"
  using noShow_guard_miss_is_silent
    [where e = quietEnv and b = "exampleBooking 7 ''accepted'' 0"
       and w = "([exampleBooking 7 ''on_the_way'' 0], [])" and io = True and now = 1860000]
  by (simp add: quietEnv_def exampleBooking_def)

subsection \<open>The reminder composer\<close>

text \<open>
  Claim C8 does not hold of the code. The \<^verbatim>\<open>catch\<close> of
  \<^verbatim>\<open>sendScheduledReminder\<close> reads \<^verbatim>\<open>err.message\<close>; when what was thrown is null or
  undefined that read throws a TypeError, which reaches the caller. Here the push
  transport rejects with undefined: the push has been attempted and the call raises. When
  the push transport never rejects with null or undefined the function does return a
  result (\<open>sendScheduledReminder_returns\<close>).
\<close>

theorem sendScheduledReminder_raises:
  "sendScheduledReminder (quietEnv\<lparr>sendPushNotification := (\<lambda>i. Some Nullish)\<rparr>)
       (exampleBooking 7 ''accepted'' 86400000) ''h24'' True []
     = (Inl typeErrorMessage,
        [PushNotification 501 (Some ''Reminder: Job Tomorrow'')
           (Some ''Hi Asha, you have a scheduled job tomorrow at 01 Jan 2026, 10:00 am. Please be prepared!'')
           ''reminder_h24'' 7])"
  by (simp add: sendScheduledReminder_def sendScheduledReminder_try_def messages_def Let_def
        quietEnv_def exampleBooking_def truthy_def techNameOf_def techPhoneOf_def
        scheduledDateOf_def)

text \<open>
  Claim C10, as stated, fails in two ways. The technician's profile is looked up before
  the reminder type is checked, so when the lookup fails the result carries the lookup's
  error and not the reason \<^verbatim>\<open>Unknown reminder type\<close>. And
  \<^verbatim>\<open>messages[type]\<close> finds the members every object inherits, so for a type such as
  \<^verbatim>\<open>constructor\<close> the check passes and a push notification without title and body is
  sent.
\<close>

theorem unknown_reminder_type_counterexample:
  "sendScheduledReminder (quietEnv\<lparr>technicianProfileFindById := (\<lambda>i. Inl ''connection lost'')\<rparr>)
       (exampleBooking 7 ''accepted'' 0) ''weekly'' True []
     = (Inr \<lparr>success = False, reason = None, error = Some ''connection lost''\<rparr>,
        [ConsoleError ''sendScheduledReminder error'' None ''connection lost''])
   \<and> sendScheduledReminder quietEnv (exampleBooking 7 ''accepted'' 0) ''constructor'' True []
     = (Inr \<lparr>success = True, reason = None, error = None\<rparr>,
        [PushNotification 501 None None ''reminder_constructor'' 7,
         SocketNotification 501 ''constructor'' 7 (Some 0) None,
         ConsoleLog ''[REMINDER] Sent to technician'' 7])"
  by (simp add: sendScheduledReminder_def sendScheduledReminder_try_def messages_def Let_def
        objectPrototypeKeys_def quietEnv_def exampleBooking_def truthy_def techNameOf_def
        techPhoneOf_def scheduledDateOf_def)

text \<open>
  Claim C10, amended. For a booking with a technician and a reminder type that is none of
  \<^verbatim>\<open>h24\<close>, \<^verbatim>\<open>h1\<close>, \<^verbatim>\<open>min15\<close> and not the name of a member inherited from
  \<^verbatim>\<open>Object.prototype\<close>: when the profile lookup succeeds the result is the failure
  \<^verbatim>\<open>Unknown reminder type\<close> and nothing has been delivered or logged; when the lookup
  fails the result is a failure with the lookup's error message, which is logged, and
  nothing has been delivered. In both cases nothing is raised.
\<close>

theorem unknown_reminder_type:
  assumes "technicianId b = Some tid"
    and "type \<noteq> ''h24''" and "type \<noteq> ''h1''" and "type \<noteq> ''min15''"
    and "type \<notin> set objectPrototypeKeys"
  shows "(\<forall>p. technicianProfileFindById e tid = Inr p \<longrightarrow>
            sendScheduledReminder e b type io tr
              = (Inr \<lparr>success = False, reason = Some ''Unknown reminder type'', error = None\<rparr>, tr))
         \<and> (\<forall>err. technicianProfileFindById e tid = Inl err \<longrightarrow>
            sendScheduledReminder e b type io tr
              = (Inr \<lparr>success = False, reason = None, error = Some err\<rparr>,
                 tr @ [ConsoleError ''sendScheduledReminder error'' None err]))"
  using assms
  by (simp add: sendScheduledReminder_def sendScheduledReminder_try_def messages_def Let_def)

theorem unknown_reminder_type_witness:
  "sendScheduledReminder quietEnv (exampleBooking 7 ''accepted'' 0) ''weekly'' True []
     = (Inr \<lparr>success = False, reason = Some ''Unknown reminder type'', error = None\<rparr>, [])"
  using unknown_reminder_type
    [where e = quietEnv and b = "exampleBooking 7 ''accepted'' 0" and tid = 501
       and type = "''weekly''" and io = True and tr = "[]"]
  by (simp add: quietEnv_def exampleBooking_def objectPrototypeKeys_def)

end
